theory Spec2Isabelle
  imports Main "HOL-Library.Word"
begin

unbundle bit_operations_syntax

chapter \<open>The reconciliation toolkit of the operator (package k8s)\<close>

text \<open>
  A shallow embedding of the Go package \<^verbatim>\<open>pkg/k8s\<close>: the resource namer
  (\<^verbatim>\<open>resource_namer.go\<close>), the finalizer patch generator (\<^verbatim>\<open>finalizer.go\<close>),
  the metadata merge and the RBAC check (\<^verbatim>\<open>k8sutil.go\<close>), and the create-or-update
  protocol for services, endpoint slices and stateful sets (\<^verbatim>\<open>network.go\<close>,
  \<^verbatim>\<open>statefulset.go\<close>).

  Conventions.
  \<^item> A Go \<^verbatim>\<open>string\<close> is a sequence of bytes: a \<^typ>\<open>string\<close> here, one \<^typ>\<open>char\<close> per byte.
  \<^item> A Go function that returns \<^verbatim>\<open>(T, error)\<close> returns a pair whose second component is
    an \<open>option\<close>: \<open>None\<close> is the \<^verbatim>\<open>nil\<close> error.
  \<^item> A run-time panic is the left summand of the result type.
  \<^item> A Go map is \<^verbatim>\<open>nil\<close> or a reference to a table: an \<open>option\<close> of a partial function.
    Where a function writes into a map that the caller still holds, the model returns the
    map as the caller sees it afterwards. No two fields of the objects that a function is
    given hold the same map: the observed objects are decoded afresh by the client.
  \<^item> A pointer to an object that a function writes (\<^verbatim>\<open>svc\<close>, \<^verbatim>\<open>sset\<close>,
    \<^verbatim>\<open>newObj\<close>) is the object, passed in and returned.
\<close>

section \<open>Definitions\<close>

subsection \<open>Run-time panics\<close>

datatype panic = SliceBoundsOutOfRange | NilPointerDereference

subsection \<open>Library: the 64-bit xxHash of \<^verbatim>\<open>github.com/cespare/xxhash/v2\<close>\<close>

text \<open>
  \<^verbatim>\<open>xxhash.New()\<close>, one \<^verbatim>\<open>Write\<close> and \<^verbatim>\<open>Sum64()\<close> compute the one-shot
  \<^verbatim>\<open>xxhash.Sum64\<close> of the bytes written (seed 0). \<^verbatim>\<open>Write\<close> never returns an error.
  All arithmetic is on \<^verbatim>\<open>uint64\<close> and wraps.
\<close>

type_synonym uint64 = "64 word"

definition prime1 :: uint64 where "prime1 = 11400714785074694791"
definition prime2 :: uint64 where "prime2 = 14029467366897019727"
definition prime3 :: uint64 where "prime3 = 1609587929392839161"
definition prime4 :: uint64 where "prime4 = 9650029242287828579"
definition prime5 :: uint64 where "prime5 = 2870177450012600261"

definition rol :: "nat \<Rightarrow> uint64 \<Rightarrow> uint64" where
  "rol r x = push_bit r x OR drop_bit (64 - r) x"

definition round :: "uint64 \<Rightarrow> uint64 \<Rightarrow> uint64" where
  "round acc input = rol 31 (acc + input * prime2) * prime1"

definition mergeRound :: "uint64 \<Rightarrow> uint64 \<Rightarrow> uint64" where
  "mergeRound acc val = (acc XOR round 0 val) * prime1 + prime4"

fun le_bytes :: "string \<Rightarrow> uint64" where
  "le_bytes [] = 0"
| "le_bytes (b # bs) = of_char b + 256 * le_bytes bs"

definition u64 :: "string \<Rightarrow> uint64" where
  "u64 b = le_bytes (take 8 b)"

definition u32 :: "string \<Rightarrow> uint64" where
  "u32 b = le_bytes (take 4 b)"

text \<open>The loop over 32-byte stripes, run while at least 32 bytes remain.\<close>

function stripes ::
  "uint64 \<times> uint64 \<times> uint64 \<times> uint64 \<Rightarrow> string \<Rightarrow> (uint64 \<times> uint64 \<times> uint64 \<times> uint64) \<times> string"
where
  "stripes v b =
     (if 32 \<le> length b
      then (case v of (v1, v2, v3, v4) \<Rightarrow>
              stripes (round v1 (u64 b), round v2 (u64 (drop 8 b)),
                       round v3 (u64 (drop 16 b)), round v4 (u64 (drop 24 b))) (drop 32 b))
      else (v, b))"
  by pat_completeness auto
termination
  by (relation "measure (\<lambda>(v, b). length b)") auto

text \<open>The loop over the remaining 8-byte words.\<close>

function words8 :: "uint64 \<Rightarrow> string \<Rightarrow> uint64 \<times> string" where
  "words8 h b =
     (if 8 \<le> length b
      then words8 (rol 27 (h XOR round 0 (u64 b)) * prime1 + prime4) (drop 8 b)
      else (h, b))"
  by pat_completeness auto
termination
  by (relation "measure (\<lambda>(h, b). length b)") auto

text \<open>The loop over the last single bytes.\<close>

fun bytes1 :: "uint64 \<Rightarrow> string \<Rightarrow> uint64" where
  "bytes1 h [] = h"
| "bytes1 h (c # b) = bytes1 (rol 11 (h XOR of_char c * prime5) * prime1) b"

definition avalanche :: "uint64 \<Rightarrow> uint64" where
  "avalanche h0 =
     (let h1 = (h0 XOR drop_bit 33 h0) * prime2;
          h2 = (h1 XOR drop_bit 29 h1) * prime3
      in h2 XOR drop_bit 32 h2)"

definition Sum64 :: "string \<Rightarrow> uint64" where
  "Sum64 b =
     (let n = length b;
          (h0, b1) =
            (if 32 \<le> n
             then (case stripes (prime1 + prime2, prime2, 0, - prime1) b of
                     ((v1, v2, v3, v4), rest) \<Rightarrow>
                       (mergeRound (mergeRound (mergeRound (mergeRound
                          (rol 1 v1 + rol 7 v2 + rol 12 v3 + rol 18 v4) v1) v2) v3) v4, rest))
             else (prime5, b));
          (h1, b2) = words8 (h0 + of_nat n) b1;
          (h2, b3) =
            (if 4 \<le> length b2
             then (rol 23 (h1 XOR u32 b2 * prime1) * prime2 + prime3, drop 4 b2)
             else (h1, b2))
      in avalanche (bytes1 h2 b3))"

subsection \<open>Library: \<^verbatim>\<open>fmt\<close>, \<^verbatim>\<open>strings\<close>, \<^verbatim>\<open>regexp\<close>\<close>

text \<open>
  The verb \<^verbatim>\<open>%x\<close> on an unsigned integer: lower-case hexadecimal digits, most
  significant first, no padding and no leading zero (\<^verbatim>\<open>0\<close> for zero).
\<close>

definition hexdigit :: "nat \<Rightarrow> char" where
  "hexdigit d = ''0123456789abcdef'' ! d"

function hex :: "nat \<Rightarrow> string" where
  "hex n = (if n < 16 then [hexdigit n] else hex (n div 16) @ [hexdigit (n mod 16)])"
  by pat_completeness auto
termination
  by (relation "measure id") auto

text \<open>The verb \<^verbatim>\<open>%d\<close> on a non-negative \<^verbatim>\<open>int\<close>.\<close>

definition decdigit :: "nat \<Rightarrow> char" where
  "decdigit d = ''0123456789'' ! d"

function decimal :: "nat \<Rightarrow> string" where
  "decimal n = (if n < 10 then [decdigit n] else decimal (n div 10) @ [decdigit (n mod 10)])"
  by pat_completeness auto
termination
  by (relation "measure id") auto

text \<open>The number that a string of decimal digits writes.\<close>

definition parse_decimal :: "string \<Rightarrow> nat" where
  "parse_decimal s = foldl (\<lambda>a c. 10 * a + (of_char c - 48)) 0 s"

text \<open>
  \<^verbatim>\<open>strings.TrimRight\<close> and \<^verbatim>\<open>strings.Trim\<close> with a cutset of ASCII characters:
  Go trims bytes then.
\<close>

definition TrimRight :: "string \<Rightarrow> string \<Rightarrow> string" where
  "TrimRight s cutset = rev (dropWhile (\<lambda>c. c \<in> set cutset) (rev s))"

definition Trim :: "string \<Rightarrow> string \<Rightarrow> string" where
  "Trim s cutset = dropWhile (\<lambda>c. c \<in> set cutset) (TrimRight s cutset)"

text \<open>
  \<^verbatim>\<open>strings.ToLower\<close>, on the bytes of the string. The letters \<^verbatim>\<open>A\<close> to \<^verbatim>\<open>Z\<close>
  move to \<^verbatim>\<open>a\<close> to \<^verbatim>\<open>z\<close>. Beyond ASCII Go maps each rune to its lower case: two
  runes have an ASCII letter as their lower case, U+212A (the bytes E2 84 AA) with
  \<^verbatim>\<open>k\<close> and U+0130 (the bytes C4 B0) with \<^verbatim>\<open>i\<close>; both sequences start with a
  lead byte, so Go decodes them wherever they stand. Every other byte from 0x80 on is
  left as it is here; Go may write other bytes for it (the lower-case rune, or U+FFFD
  for invalid UTF-8), all of them from 0x80 on again. The only caller, \<open>sanitizedLabel\<close>,
  replaces every run of such bytes by a hyphen in its next step.
\<close>

definition isUpper :: "char \<Rightarrow> bool" where
  "isUpper c = (65 \<le> (of_char c :: nat) \<and> (of_char c :: nat) \<le> 90)"

definition isLower :: "char \<Rightarrow> bool" where
  "isLower c = (97 \<le> (of_char c :: nat) \<and> (of_char c :: nat) \<le> 122)"

definition isDigit :: "char \<Rightarrow> bool" where
  "isDigit c = (48 \<le> (of_char c :: nat) \<and> (of_char c :: nat) \<le> 57)"

definition toLower :: "char \<Rightarrow> char" where
  "toLower c = (if isUpper c then char_of (of_char c + (32 :: nat)) else c)"

fun ToLower :: "string \<Rightarrow> string" where
  "ToLower [] = []"
| "ToLower (c # cs) =
     (if c = CHR 0xE2 \<and> take 2 cs = [CHR 0x84, CHR 0xAA] then CHR ''k'' # ToLower (drop 2 cs)
      else if c = CHR 0xC4 \<and> take 1 cs = [CHR 0xB0] then CHR ''i'' # ToLower (drop 1 cs)
      else toLower c # ToLower cs)"

text \<open>
  \<^verbatim>\<open>re.ReplaceAllString(s, repl)\<close> for a regular expression of the shape \<^verbatim>\<open>[class]+\<close>:
  every maximal run of characters of the class is replaced by \<^verbatim>\<open>repl\<close>. The first
  argument is the class, as a predicate on bytes. For the class \<^verbatim>\<open>[^-a-z0-9]\<close> of the
  namer the runs of runes that Go replaces are the runs of bytes of the class: a rune
  beyond ASCII, and a byte that is invalid UTF-8, is in the class, and so is each of its
  bytes.
\<close>

function ReplaceAllString :: "(char \<Rightarrow> bool) \<Rightarrow> string \<Rightarrow> string \<Rightarrow> string" where
  "ReplaceAllString cls [] repl = []"
| "ReplaceAllString cls (c # cs) repl =
     (if cls c then repl @ ReplaceAllString cls (dropWhile cls cs) repl
      else c # ReplaceAllString cls cs repl)"
  by pat_completeness auto
termination
  by (relation "measure (\<lambda>(cls, s, repl). length s)")
     (auto simp: length_dropWhile_le less_Suc_eq_le)

subsection \<open>Library: \<^verbatim>\<open>validation.IsDNS1123Label\<close>\<close>

text \<open>
  \<^verbatim>\<open>IsDNS1123Label\<close> returns the list of violations of a value: one when it is longer
  than \<^verbatim>\<open>DNS1123LabelMaxLength\<close>, one when it does not match the anchored regular
  expression \<^verbatim>\<open>^[a-z0-9]([-a-z0-9]*[a-z0-9])?$\<close>. The texts of the messages are not
  modelled.
\<close>

definition DNS1123LabelMaxLength :: nat where
  "DNS1123LabelMaxLength = 63"

definition alnum :: "char \<Rightarrow> bool" where
  "alnum c = (isLower c \<or> isDigit c)"

definition labelChar :: "char \<Rightarrow> bool" where
  "labelChar c = (c = CHR ''-'' \<or> alnum c)"

fun dns1123LabelRegexp_MatchString :: "string \<Rightarrow> bool" where
  "dns1123LabelRegexp_MatchString [] = False"
| "dns1123LabelRegexp_MatchString (c # cs) =
     (alnum c \<and> (cs = [] \<or> (list_all labelChar (butlast cs) \<and> alnum (last cs))))"

datatype violation = MaxLenError | RegexError

definition IsDNS1123Label :: "string \<Rightarrow> violation list" where
  "IsDNS1123Label val =
     (if DNS1123LabelMaxLength < length val then [MaxLenError] else []) @
     (if \<not> dns1123LabelRegexp_MatchString val then [RegexError] else [])"

subsection \<open>Library: errors and the API status\<close>

text \<open>
  \<^verbatim>\<open>metav1.StatusReason\<close> is a string. The reasons \<^verbatim>\<open>NotFound\<close>,
  \<^verbatim>\<open>AlreadyExists\<close>, \<^verbatim>\<open>Conflict\<close> and \<^verbatim>\<open>Invalid\<close> are constructors; every other
  reason is kept with its text, apart according to whether the table \<^verbatim>\<open>knownReasons\<close>
  of \<^verbatim>\<open>k8s.io/apimachinery/pkg/api/errors\<close> lists it.
  \<^verbatim>\<open>Status.Details\<close> is a pointer: \<open>None\<close> is \<^verbatim>\<open>nil\<close>.
\<close>

datatype StatusReason =
    StatusReasonNotFound
  | StatusReasonAlreadyExists
  | StatusReasonConflict
  | StatusReasonInvalid
  | StatusReasonKnown string
  | StatusReasonUnlisted string

record StatusCause =
  Message :: string

record StatusDetails =
  Causes :: "StatusCause list"

record Status =
  Code :: int
  Reason :: StatusReason
  Details :: "StatusDetails option"

text \<open>
  The values of Go's \<^verbatim>\<open>error\<close> that occur:
  \<^item> \<open>ErrorString m\<close>: \<^verbatim>\<open>errors.New(m)\<close> or \<^verbatim>\<open>fmt.Errorf(m)\<close>, and any error of another
    package that is no API status (a transport error);
  \<^item> \<open>ValidationError errs\<close>: \<^verbatim>\<open>errors.New(strings.Join(errs, ","))\<close> for the violations
    \<open>errs\<close> that \<^verbatim>\<open>IsDNS1123Label\<close> returned;
  \<^item> \<open>StatusError st\<close>: \<^verbatim>\<open>*apierrors.StatusError\<close> with \<^verbatim>\<open>ErrStatus = st\<close>;
  \<^item> \<open>Wrapped m err\<close>: \<^verbatim>\<open>fmt.Errorf(m + "%w", err)\<close>;
  \<^item> \<open>MissingPermissionAll verb resource group\<close>:
    \<^verbatim>\<open>fmt.Errorf("missing %q permission on resource %q (group: %q) for all namespaces", ...)\<close>;
  \<^item> \<open>MissingPermission verb resource group ns\<close>:
    \<^verbatim>\<open>fmt.Errorf("missing %q permission on resource %q (group: %q) for namespace %q", ...)\<close>.
\<close>

datatype error =
    ErrorString string
  | ValidationError "violation list"
  | StatusError Status
  | Wrapped string error
  | MissingPermissionAll string string string
  | MissingPermission string string string string

text \<open>
  \<^verbatim>\<open>reasonAndCodeForError\<close>: the status of the first API status in the chain of
  wrapped errors, if there is one.
\<close>

fun APIStatus :: "error \<Rightarrow> Status option" where
  "APIStatus (StatusError st) = Some st"
| "APIStatus (Wrapped m err) = APIStatus err"
| "APIStatus _ = None"

definition knownReason :: "StatusReason \<Rightarrow> bool" where
  "knownReason r = (case r of StatusReasonUnlisted _ \<Rightarrow> False | _ \<Rightarrow> True)"

definition IsNotFound :: "error \<Rightarrow> bool" where
  "IsNotFound err =
     (case APIStatus err of
        None \<Rightarrow> False
      | Some st \<Rightarrow> Reason st = StatusReasonNotFound \<or> (\<not> knownReason (Reason st) \<and> Code st = 404))"

definition IsConflict :: "error \<Rightarrow> bool" where
  "IsConflict err =
     (case APIStatus err of
        None \<Rightarrow> False
      | Some st \<Rightarrow> Reason st = StatusReasonConflict \<or> (\<not> knownReason (Reason st) \<and> Code st = 409))"

text \<open>\<^verbatim>\<open>strings.Join\<close> and \<^verbatim>\<open>strings.HasPrefix\<close>.\<close>

fun Join :: "string list \<Rightarrow> string \<Rightarrow> string" where
  "Join [] sep = []"
| "Join [s] sep = s"
| "Join (s # t # ss) sep = s @ sep @ Join (t # ss) sep"

definition HasPrefix :: "string \<Rightarrow> string \<Rightarrow> bool" where
  "HasPrefix s p = (length p \<le> length s \<and> take (length p) s = p)"

subsection \<open>\<^verbatim>\<open>resource_namer.go\<close>\<close>

text \<open>The class of \<^verbatim>\<open>regexp.MustCompile("[^-a-z0-9]+")\<close>.\<close>

definition invalidDNS1123Characters :: "char \<Rightarrow> bool" where
  "invalidDNS1123Characters c = (\<not> labelChar c)"

record ResourceNamer =
  prefix :: string

definition sanitizedLabel :: "ResourceNamer \<Rightarrow> string \<Rightarrow> string" where
  "sanitizedLabel rn name0 =
     (let name1 = (if prefix rn \<noteq> [] then TrimRight (prefix rn) ''-'' @ ''-'' @ name0 else name0);
          name2 = ToLower name1;
          name3 = ReplaceAllString invalidDNS1123Characters name2 ''-''
      in Trim name3 ''-'')"

definition isValidDNS1123Label :: "string \<Rightarrow> error option" where
  "isValidDNS1123Label name =
     (let errs = IsDNS1123Label name
      in if 0 < length errs then Some (ValidationError errs) else None)"

definition UniqueDNS1123Label :: "ResourceNamer \<Rightarrow> string \<Rightarrow> panic + string \<times> error option" where
  "UniqueDNS1123Label rn name0 =
     (let h0 = ''-'' @ hex (unat (Sum64 name0))
      in if length h0 < 9 then Inl SliceBoundsOutOfRange
         else
           let h = take 9 h0;
               name1 = sanitizedLabel rn name0;
               name2 = (if DNS1123LabelMaxLength - 9 < length name1
                        then take (DNS1123LabelMaxLength - 9) name1 else name1);
               name3 = name2 @ h;
               errs = IsDNS1123Label name3
           in if 0 < length errs then Inr ('''', Some (ValidationError errs))
              else Inr (name3, isValidDNS1123Label name3))"

definition DNS1123Label :: "ResourceNamer \<Rightarrow> string \<Rightarrow> string \<times> error option" where
  "DNS1123Label rn name0 =
     (let name1 = sanitizedLabel rn name0;
          name2 = (if DNS1123LabelMaxLength < length name1
                   then take DNS1123LabelMaxLength name1 else name1)
      in (name2, isValidDNS1123Label name2))"

text \<open>
  Worded after the specification, for comparison with the code: the eight lowest-order
  hexadecimal digits of a number, the most significant of them first.
\<close>

definition lowest8_hex :: "nat \<Rightarrow> string" where
  "lowest8_hex n = map (\<lambda>i. hexdigit (n div 16 ^ i mod 16)) [7, 6, 5, 4, 3, 2, 1, 0]"

subsection \<open>\<^verbatim>\<open>finalizer.go\<close>\<close>

text \<open>
  A patch is a \<^verbatim>\<open>[]map[string]any\<close>. Each map is written by a literal whose keys are
  \<^verbatim>\<open>op\<close>, \<^verbatim>\<open>path\<close> and \<^verbatim>\<open>value\<close>: it is the list of its entries here, which is
  also the order in which \<^verbatim>\<open>json.Marshal\<close> writes them. The values are strings and
  slices of strings.

  The result of \<^verbatim>\<open>json.Marshal\<close> is kept as the document it encodes, \<open>JSONBytes\<close> of
  the patch; the two other byte slices that the functions return are the empty slice
  \<^verbatim>\<open>[]byte{}\<close> and \<^verbatim>\<open>nil\<close>. \<^verbatim>\<open>json.Marshal\<close> returns no error on these values.
\<close>

datatype any = String string | Strings "string list"

type_synonym operation = "(string \<times> any) list"

datatype bytes = NilBytes | EmptyBytes | JSONBytes "operation list"

definition json_Marshal :: "operation list \<Rightarrow> bytes \<times> error option" where
  "json_Marshal patch = (JSONBytes patch, None)"

definition FinalizerAddPatch :: "string list \<Rightarrow> string \<Rightarrow> bytes \<times> error option" where
  "FinalizerAddPatch finalizers finalizerName =
     (if finalizerName \<in> set finalizers then (EmptyBytes, None)
      else if length finalizers = 0
      then json_Marshal
             [[(''op'', String ''add''),
               (''path'', String ''/metadata/finalizers''),
               (''value'', Strings [finalizerName])]]
      else json_Marshal
             [[(''op'', String ''add''),
               (''path'', String ''/metadata/finalizers/-''),
               (''value'', String finalizerName)]])"

text \<open>
  The loop \<^verbatim>\<open>for i, f := range finalizers\<close>, entered at index \<open>i\<close> with the elements
  from \<open>i\<close> on still to visit.
\<close>

fun FinalizerDeletePatch_from :: "nat \<Rightarrow> string list \<Rightarrow> string \<Rightarrow> bytes \<times> error option" where
  "FinalizerDeletePatch_from i [] finalizerName = (NilBytes, None)"
| "FinalizerDeletePatch_from i (f # fs) finalizerName =
     (if f = finalizerName
      then json_Marshal
             [[(''op'', String ''test''),
               (''path'', String (''/metadata/finalizers/'' @ decimal i)),
               (''value'', String finalizerName)],
              [(''op'', String ''remove''),
               (''path'', String (''/metadata/finalizers/'' @ decimal i))]]
      else FinalizerDeletePatch_from (Suc i) fs finalizerName)"

definition FinalizerDeletePatch :: "string list \<Rightarrow> string \<Rightarrow> bytes \<times> error option" where
  "FinalizerDeletePatch finalizers finalizerName =
     FinalizerDeletePatch_from 0 finalizers finalizerName"

subsection \<open>Objects and their metadata\<close>

text \<open>
  \<^verbatim>\<open>metav1.OwnerReference\<close>. \<^verbatim>\<open>Controller\<close> and \<^verbatim>\<open>BlockOwnerDeletion\<close> are
  pointers to booleans: the field holds the address (\<open>None\<close> for \<^verbatim>\<open>nil\<close>), since Go's
  \<^verbatim>\<open>==\<close> on the struct, which a map with this key type uses, compares the pointers.
\<close>

record OwnerReference =
  APIVersion :: string
  Kind :: string
  Name :: string
  UID :: string
  Controller :: "nat option"
  BlockOwnerDeletion :: "nat option"

type_synonym gomap = "(string \<rightharpoonup> string) option"

record ObjectMeta =
  Name :: string
  ResourceVersion :: string
  Labels :: gomap
  Annotations :: gomap
  OwnerReferences :: "OwnerReference list"

text \<open>
  An object of some kind: its metadata and its specification. The fields that the package
  does not touch are left out.
\<close>

record 'spec Object =
  ObjectMeta :: ObjectMeta
  Spec :: 'spec

record ServiceSpec =
  ClusterIP :: string
  ClusterIPs :: "string list"
  IPFamilies :: "string list"
  IPFamilyPolicy :: "string option"

type_synonym Service = "ServiceSpec Object"

text \<open>An endpoint slice has no specification that the package reads.\<close>

type_synonym EndpointSlice = "unit Object"

text \<open>\<^verbatim>\<open>corev1.PodTemplateSpec\<close>: metadata and a pod specification.\<close>

type_synonym PodTemplateSpec = "unit Object"

record StatefulSetSpec =
  Template :: PodTemplateSpec

type_synonym StatefulSet = "StatefulSetSpec Object"

subsection \<open>The metadata merge (\<^verbatim>\<open>k8sutil.go\<close>)\<close>

text \<open>The entries of a map; a \<^verbatim>\<open>nil\<close> map has none.\<close>

definition entries :: "gomap \<Rightarrow> (string \<rightharpoonup> string)" where
  "entries m = (case m of None \<Rightarrow> Map.empty | Some t \<Rightarrow> t)"

text \<open>
  \<^verbatim>\<open>mergeMapsByPrefix(from, to, prefix)\<close> writes into \<^verbatim>\<open>to\<close>. When \<^verbatim>\<open>to\<close> is
  \<^verbatim>\<open>nil\<close> the function makes a map of its own and the caller's \<^verbatim>\<open>to\<close> stays
  \<^verbatim>\<open>nil\<close>; otherwise the caller's map is the one written. The loop
  \<^verbatim>\<open>for k, v := range from { if strings.HasPrefix(k, prefix) { to[k] = v } }\<close> visits every
  key of \<^verbatim>\<open>from\<close> once, so its effect on each key of \<^verbatim>\<open>to\<close> does not depend on the
  order. The result is the pair of the map returned and of \<^verbatim>\<open>to\<close> as the caller holds
  it after the call.
\<close>

definition mergeMapsByPrefix :: "gomap \<Rightarrow> gomap \<Rightarrow> string \<Rightarrow> gomap \<times> gomap" where
  "mergeMapsByPrefix from to pre =
     (let to1 = entries to;
          from1 = entries from;
          to2 = (\<lambda>k. if HasPrefix k pre
                      then (case from1 k of Some v \<Rightarrow> Some v | None \<Rightarrow> to1 k)
                      else to1 k)
      in (Some to2, case to of None \<Rightarrow> None | Some _ \<Rightarrow> Some to2))"

definition mergeMaps :: "gomap \<Rightarrow> gomap \<Rightarrow> gomap \<times> gomap" where
  "mergeMaps newObj oldObj = mergeMapsByPrefix newObj oldObj ''''"

text \<open>
  \<^verbatim>\<open>mergeMetadata(newObj *ObjectMeta, oldObj ObjectMeta)\<close>: the new metadata after the
  call, and the old metadata as its holder sees it after the call.
\<close>

definition mergeMetadata :: "ObjectMeta \<Rightarrow> ObjectMeta \<Rightarrow> ObjectMeta \<times> ObjectMeta" where
  "mergeMetadata newObj oldObj =
     (let newObj1 = newObj\<lparr>ResourceVersion := ResourceVersion oldObj\<rparr>;
          (labels, oldLabels) = mergeMaps (Labels newObj1) (Labels oldObj);
          newObj2 = newObj1\<lparr>Labels := labels\<rparr>;
          (annotations, oldAnnotations) = mergeMaps (Annotations newObj2) (Annotations oldObj);
          newObj3 = newObj2\<lparr>Annotations := annotations\<rparr>
      in (newObj3, oldObj\<lparr>Labels := oldLabels, Annotations := oldAnnotations\<rparr>))"

text \<open>
  \<^verbatim>\<open>mergeKubectlAnnotations(from *ObjectMeta, to ObjectMeta)\<close>: \<^verbatim>\<open>from\<close> after the
  call, and the metadata that was passed as \<^verbatim>\<open>to\<close> as its holder sees it after the call.
\<close>

definition mergeKubectlAnnotations :: "ObjectMeta \<Rightarrow> ObjectMeta \<Rightarrow> ObjectMeta \<times> ObjectMeta" where
  "mergeKubectlAnnotations from to =
     (let (annotations, toAnnotations) =
            mergeMapsByPrefix (Annotations from) (Annotations to) ''kubectl.kubernetes.io/''
      in (from\<lparr>Annotations := annotations\<rparr>, to\<lparr>Annotations := toAnnotations\<rparr>))"

subsection \<open>\<^verbatim>\<open>mergeOwnerReferences\<close> (\<^verbatim>\<open>network.go\<close>)\<close>

definition mergeOwnerReferences ::
  "OwnerReference list \<Rightarrow> OwnerReference list \<Rightarrow> OwnerReference list" where
  "mergeOwnerReferences oldObj newObj =
     (let existing = fold (\<lambda>ownerRef m. m(ownerRef \<mapsto> True)) oldObj Map.empty
      in fold (\<lambda>ownerRef old. if existing ownerRef = None then old @ [ownerRef] else old)
           newObj oldObj)"

subsection \<open>Library: the typed clients and \<^verbatim>\<open>retry.RetryOnConflict\<close>\<close>

text \<open>
  A typed client sends requests to the API server. The server is any function from the
  requests received so far, the last one being the request to answer, to the answer: an
  error or an object. A call appends its request to the log of requests and returns the
  answer with the new log. \<^verbatim>\<open>Delete\<close> returns the error only.
\<close>

datatype DeletionPropagation =
  DeletePropagationOrphan | DeletePropagationBackground | DeletePropagationForeground

record DeleteOptions =
  PropagationPolicy :: "DeletionPropagation option"

datatype 'o call =
    GetCall string
  | CreateCall 'o
  | UpdateCall 'o
  | DeleteCall string DeleteOptions

type_synonym 'o server = "'o call list \<Rightarrow> error + 'o"

definition request :: "'o server \<Rightarrow> 'o call \<Rightarrow> 'o call list \<Rightarrow> (error + 'o) \<times> 'o call list" where
  "request srv c log = (srv (log @ [c]), log @ [c])"

definition Get :: "'o server \<Rightarrow> string \<Rightarrow> 'o call list \<Rightarrow> (error + 'o) \<times> 'o call list" where
  "Get srv name log = request srv (GetCall name) log"

definition Create :: "'o server \<Rightarrow> 'o \<Rightarrow> 'o call list \<Rightarrow> (error + 'o) \<times> 'o call list" where
  "Create srv obj log = request srv (CreateCall obj) log"

definition Update :: "'o server \<Rightarrow> 'o \<Rightarrow> 'o call list \<Rightarrow> (error + 'o) \<times> 'o call list" where
  "Update srv obj log = request srv (UpdateCall obj) log"

definition Delete ::
  "'o server \<Rightarrow> string \<Rightarrow> DeleteOptions \<Rightarrow> 'o call list \<Rightarrow> error option \<times> 'o call list" where
  "Delete srv name opts log =
     (case request srv (DeleteCall name opts) log of
        (Inl err, log1) \<Rightarrow> (Some err, log1)
      | (Inr _, log1) \<Rightarrow> (None, log1))"

text \<open>The error that a call returns for an answer of the server.\<close>

definition outcome :: "error + 'o \<Rightarrow> error option" where
  "outcome r = (case r of Inl err \<Rightarrow> Some err | Inr _ \<Rightarrow> None)"

text \<open>
  \<^verbatim>\<open>retry.OnError(backoff, retriable, fn)\<close> over \<^verbatim>\<open>wait.ExponentialBackoff\<close>: \<^verbatim>\<open>fn\<close>
  runs at most \<^verbatim>\<open>backoff.Steps\<close> times; a \<^verbatim>\<open>nil\<close> error or an error that is not
  retriable ends the loop and is returned; a retriable error is remembered as
  \<^verbatim>\<open>lastErr\<close>, which is returned when the steps are used up. The function \<^verbatim>\<open>fn\<close> is
  a closure over the variables of its caller: it takes their state and returns the new
  one. The sleep between two attempts and the cancellation of the context are not modelled.
\<close>

record Backoff =
  Steps :: nat

definition DefaultRetry :: Backoff where
  "DefaultRetry = \<lparr>Steps = 5\<rparr>"

fun OnError_loop ::
  "nat \<Rightarrow> (error \<Rightarrow> bool) \<Rightarrow> ('s \<Rightarrow> error option \<times> 's) \<Rightarrow> error option \<Rightarrow> 's \<Rightarrow> error option \<times> 's"
where
  "OnError_loop 0 retriable fn lastErr s = (lastErr, s)"
| "OnError_loop (Suc steps) retriable fn lastErr s =
     (case fn s of
        (None, s1) \<Rightarrow> (None, s1)
      | (Some err, s1) \<Rightarrow>
          if retriable err then OnError_loop steps retriable fn (Some err) s1
          else (Some err, s1))"

definition OnError ::
  "Backoff \<Rightarrow> (error \<Rightarrow> bool) \<Rightarrow> ('s \<Rightarrow> error option \<times> 's) \<Rightarrow> 's \<Rightarrow> error option \<times> 's" where
  "OnError backoff retriable fn s = OnError_loop (Steps backoff) retriable fn None s"

definition RetryOnConflict ::
  "Backoff \<Rightarrow> ('s \<Rightarrow> error option \<times> 's) \<Rightarrow> 's \<Rightarrow> error option \<times> 's" where
  "RetryOnConflict backoff fn s = OnError backoff IsConflict fn s"

subsection \<open>\<^verbatim>\<open>network.go\<close>\<close>

text \<open>
  The typed client allocates the object of its answer before it sends the request
  (\<^verbatim>\<open>result = &v1.Service{}\<close>) and returns it beside the error when the request fails: a
  service that is not \<^verbatim>\<open>nil\<close> and whose fields are all zero.
\<close>

definition zeroService :: Service where
  "zeroService =
     \<lparr>ObjectMeta = \<lparr>ObjectMeta.Name = '''', ResourceVersion = '''',
                    Labels = None, Annotations = None, OwnerReferences = []\<rparr>,
      Spec = \<lparr>ClusterIP = '''', ClusterIPs = [], IPFamilies = [], IPFamilyPolicy = None\<rparr>\<rparr>"

text \<open>
  The closure that \<^verbatim>\<open>CreateOrUpdateService\<close> passes to \<^verbatim>\<open>RetryOnConflict\<close>. Its
  state is the service \<^verbatim>\<open>svc\<close> (a pointer of the caller, written by the closure), the
  variable \<^verbatim>\<open>ret\<close> and the log of requests. A write assigns \<^verbatim>\<open>ret\<close> also when it
  fails.
\<close>

definition CreateOrUpdateService_fn ::
  "Service server \<Rightarrow> Service \<times> Service option \<times> Service call list
     \<Rightarrow> error option \<times> Service \<times> Service option \<times> Service call list" where
  "CreateOrUpdateService_fn sclient = (\<lambda>(svc, ret, log).
     (case Get sclient (ObjectMeta.Name (ObjectMeta svc)) log of
        (Inl err, log1) \<Rightarrow>
          if \<not> IsNotFound err then (Some err, svc, ret, log1)
          else (case Create sclient svc log1 of
                  (Inl err2, log2) \<Rightarrow> (Some err2, svc, Some zeroService, log2)
                | (Inr created, log2) \<Rightarrow> (None, svc, Some created, log2))
      | (Inr service, log1) \<Rightarrow>
          let svc1 = svc\<lparr>Spec := (Spec svc)\<lparr>IPFamilies := IPFamilies (Spec service)\<rparr>\<rparr>;
              svc2 = svc1\<lparr>Spec := (Spec svc1)\<lparr>IPFamilyPolicy := IPFamilyPolicy (Spec service)\<rparr>\<rparr>;
              svc3 = svc2\<lparr>Spec := (Spec svc2)\<lparr>ClusterIP := ClusterIP (Spec service)\<rparr>\<rparr>;
              svc4 = svc3\<lparr>Spec := (Spec svc3)\<lparr>ClusterIPs := ClusterIPs (Spec service)\<rparr>\<rparr>;
              svc5 = svc4\<lparr>ObjectMeta := (ObjectMeta svc4)\<lparr>OwnerReferences :=
                       mergeOwnerReferences (OwnerReferences (ObjectMeta service))
                         (OwnerReferences (ObjectMeta svc4))\<rparr>\<rparr>;
              (meta, oldMeta) = mergeMetadata (ObjectMeta svc5) (ObjectMeta service);
              svc6 = svc5\<lparr>ObjectMeta := meta\<rparr>
          in (case Update sclient svc6 log1 of
                (Inl err2, log2) \<Rightarrow> (Some err2, svc6, Some zeroService, log2)
              | (Inr updated, log2) \<Rightarrow> (None, svc6, Some updated, log2))))"

text \<open>
  \<^verbatim>\<open>CreateOrUpdateService\<close>: the pair that the function returns, the service of the
  caller after the call, and the log of requests.
\<close>

definition CreateOrUpdateService ::
  "Service server \<Rightarrow> Service \<Rightarrow> Service call list
     \<Rightarrow> (Service option \<times> error option) \<times> Service \<times> Service call list" where
  "CreateOrUpdateService sclient svc log =
     (case RetryOnConflict DefaultRetry (CreateOrUpdateService_fn sclient) (svc, None, log) of
        (err, svc1, ret, log1) \<Rightarrow> ((ret, err), svc1, log1))"

definition CreateOrUpdateEndpointSlice_fn ::
  "EndpointSlice server \<Rightarrow> EndpointSlice \<times> EndpointSlice call list
     \<Rightarrow> error option \<times> EndpointSlice \<times> EndpointSlice call list" where
  "CreateOrUpdateEndpointSlice_fn c = (\<lambda>(eps, log).
     if ObjectMeta.Name (ObjectMeta eps) = ''''
     then (case Create c eps log of
             (Inl err, log1) \<Rightarrow> (Some err, eps, log1)
           | (Inr created, log1) \<Rightarrow> (None, eps, log1))
     else
       (case Get c (ObjectMeta.Name (ObjectMeta eps)) log of
          (Inl err, log1) \<Rightarrow>
            if \<not> IsNotFound err then (Some err, eps, log1)
            else (case Create c eps log1 of
                    (Inl err2, log2) \<Rightarrow> (Some err2, eps, log2)
                  | (Inr created, log2) \<Rightarrow> (None, eps, log2))
        | (Inr endpoints, log1) \<Rightarrow>
            let (meta, oldMeta) = mergeMetadata (ObjectMeta eps) (ObjectMeta endpoints);
                eps1 = eps\<lparr>ObjectMeta := meta\<rparr>
            in (case Update c eps1 log1 of
                  (Inl err2, log2) \<Rightarrow> (Some err2, eps1, log2)
                | (Inr updated, log2) \<Rightarrow> (None, eps1, log2))))"

definition CreateOrUpdateEndpointSlice ::
  "EndpointSlice server \<Rightarrow> EndpointSlice \<Rightarrow> EndpointSlice call list
     \<Rightarrow> error option \<times> EndpointSlice \<times> EndpointSlice call list" where
  "CreateOrUpdateEndpointSlice c eps log =
     RetryOnConflict DefaultRetry (CreateOrUpdateEndpointSlice_fn c) (eps, log)"

subsection \<open>\<^verbatim>\<open>statefulset.go\<close>\<close>

definition updateStatefulSet_fn ::
  "StatefulSet server \<Rightarrow> StatefulSet \<times> StatefulSet call list
     \<Rightarrow> error option \<times> StatefulSet \<times> StatefulSet call list" where
  "updateStatefulSet_fn sstClient = (\<lambda>(sset, log).
     (case Get sstClient (ObjectMeta.Name (ObjectMeta sset)) log of
        (Inl err, log1) \<Rightarrow> (Some err, sset, log1)
      | (Inr existingSset, log1) \<Rightarrow>
          let (meta, oldMeta) = mergeMetadata (ObjectMeta sset) (ObjectMeta existingSset);
              sset1 = sset\<lparr>ObjectMeta := meta\<rparr>;
              (existingTemplateMeta, templateMeta) =
                 mergeKubectlAnnotations (ObjectMeta (Template (Spec existingSset)))
                   (ObjectMeta (Template (Spec sset1)));
              sset2 = sset1\<lparr>Spec := (Spec sset1)\<lparr>Template :=
                        (Template (Spec sset1))\<lparr>ObjectMeta := templateMeta\<rparr>\<rparr>\<rparr>
          in (case Update sstClient sset2 log1 of
                (Inl err2, log2) \<Rightarrow> (Some err2, sset2, log2)
              | (Inr updated, log2) \<Rightarrow> (None, sset2, log2))))"

definition updateStatefulSet ::
  "StatefulSet server \<Rightarrow> StatefulSet \<Rightarrow> StatefulSet call list
     \<Rightarrow> error option \<times> StatefulSet \<times> StatefulSet call list" where
  "updateStatefulSet sstClient sset log =
     RetryOnConflict DefaultRetry (updateStatefulSet_fn sstClient) (sset, log)"

text \<open>
  \<^verbatim>\<open>ForceUpdateStatefulSet\<close>. The callback \<^verbatim>\<open>onDeleteFunc\<close> is \<^verbatim>\<open>nil\<close> (\<open>None\<close>) or a
  function that takes the message and acts on the state \<open>c\<close> of the caller. The result is
  a panic, or the error returned with the stateful set of the caller, the state of the
  caller and the log of requests after the call.
\<close>

definition ForceUpdateStatefulSet ::
  "StatefulSet server \<Rightarrow> StatefulSet \<Rightarrow> (string \<Rightarrow> 'c \<Rightarrow> 'c) option \<Rightarrow> 'c \<Rightarrow> StatefulSet call list
     \<Rightarrow> panic + error option \<times> StatefulSet \<times> 'c \<times> StatefulSet call list" where
  "ForceUpdateStatefulSet ssetClient sset onDeleteFunc c log =
     (case updateStatefulSet ssetClient sset log of
        (None, sset1, log1) \<Rightarrow> Inr (None, sset1, c, log1)
      | (Some err, sset1, log1) \<Rightarrow>
          (case err of
             StatusError sErr \<Rightarrow>
               if Code sErr \<noteq> 422 \<or> Reason sErr \<noteq> StatusReasonInvalid
               then Inr (Some (Wrapped ''failed to update StatefulSet: '' err), sset1, c, log1)
               else
                 (case Details sErr of
                    None \<Rightarrow> Inl NilPointerDereference
                  | Some details \<Rightarrow>
                      let failMsg = map Message (Causes details);
                          c1 = (case onDeleteFunc of
                                  None \<Rightarrow> c
                                | Some f \<Rightarrow> f (Join failMsg '', '') c);
                          (err2, log2) =
                             Delete ssetClient (ObjectMeta.Name (ObjectMeta sset1))
                               \<lparr>PropagationPolicy = Some DeletePropagationForeground\<rparr> log1
                      in Inr (err2, sset1, c1, log2))
           | _ \<Rightarrow> Inr (Some (Wrapped ''failed to update StatefulSet: '' err), sset1, c, log1)))"

subsection \<open>\<^verbatim>\<open>IsAllowed\<close> (\<^verbatim>\<open>k8sutil.go\<close>)\<close>

record ResourceAttribute =
  Resource :: string
  Name :: string
  Group :: string
  Version :: string
  Verbs :: "string list"

text \<open>\<^verbatim>\<open>authv1.ResourceAttributes\<close>, the subject of a self subject access review.\<close>

record ResourceAttributes =
  Namespace :: string
  Verb :: string
  Group :: string
  Version :: string
  Resource :: string
  Name :: string

text \<open>
  The review client: the server answers a review, given the reviews received so far (the
  last one being the review to answer), with an error or with \<^verbatim>\<open>Status.Allowed\<close>.
\<close>

type_synonym review_server = "ResourceAttributes list \<Rightarrow> error + bool"

definition ssar_Create ::
  "review_server \<Rightarrow> ResourceAttributes \<Rightarrow> ResourceAttributes list
     \<Rightarrow> (error + bool) \<times> ResourceAttributes list" where
  "ssar_Create srv ssar log = (srv (log @ [ssar]), log @ [ssar])"

definition NamespaceAll :: string where
  "NamespaceAll = ''''"

text \<open>The review that the innermost loop body builds.\<close>

definition review :: "string \<Rightarrow> ResourceAttribute \<Rightarrow> string \<Rightarrow> ResourceAttributes" where
  "review ns ra verb =
     (let resourceAttributes =
            \<lparr>Namespace = ns, Verb = verb,
             ResourceAttributes.Group = ResourceAttribute.Group ra,
             ResourceAttributes.Version = ResourceAttribute.Version ra,
             ResourceAttributes.Resource = ResourceAttribute.Resource ra,
             ResourceAttributes.Name = ResourceAttribute.Name ra\<rparr>
      in if ResourceAttributes.Group resourceAttributes = ''''
            \<and> ResourceAttributes.Resource resourceAttributes = ''namespaces''
            \<and> ResourceAttributes.Name resourceAttributes \<noteq> ''''
            \<and> Namespace resourceAttributes = ''''
         then resourceAttributes\<lparr>Namespace := ResourceAttributes.Name resourceAttributes\<rparr>
         else resourceAttributes)"

text \<open>The reason that the loop body appends when the review is not allowed.\<close>

definition missingPermission :: "string \<Rightarrow> ResourceAttribute \<Rightarrow> string \<Rightarrow> error" where
  "missingPermission ns ra verb =
     (let resource = ResourceAttribute.Resource ra;
          resource1 = (if ResourceAttribute.Name ra \<noteq> ''''
                       then resource @ ''/'' @ ResourceAttribute.Name ra else resource)
      in if ns = NamespaceAll
         then MissingPermissionAll verb resource1 (ResourceAttribute.Group ra)
         else MissingPermission verb resource1 (ResourceAttribute.Group ra) ns)"

text \<open>
  The three loops. Each takes the list still to visit, the slice \<^verbatim>\<open>missingPermissions\<close>
  and the log, and returns \<open>Inl err\<close> when the function returned from inside the loop.
\<close>

fun IsAllowed_verbs ::
  "review_server \<Rightarrow> string \<Rightarrow> ResourceAttribute \<Rightarrow> string list \<Rightarrow> error list
     \<Rightarrow> ResourceAttributes list \<Rightarrow> (error + error list) \<times> ResourceAttributes list" where
  "IsAllowed_verbs srv ns ra [] missingPermissions log = (Inr missingPermissions, log)"
| "IsAllowed_verbs srv ns ra (verb # verbs) missingPermissions log =
     (case ssar_Create srv (review ns ra verb) log of
        (Inl err, log1) \<Rightarrow> (Inl err, log1)
      | (Inr allowed, log1) \<Rightarrow>
          IsAllowed_verbs srv ns ra verbs
            (if \<not> allowed then missingPermissions @ [missingPermission ns ra verb]
             else missingPermissions) log1)"

fun IsAllowed_attributes ::
  "review_server \<Rightarrow> string \<Rightarrow> ResourceAttribute list \<Rightarrow> error list
     \<Rightarrow> ResourceAttributes list \<Rightarrow> (error + error list) \<times> ResourceAttributes list" where
  "IsAllowed_attributes srv ns [] missingPermissions log = (Inr missingPermissions, log)"
| "IsAllowed_attributes srv ns (ra # attributes) missingPermissions log =
     (case IsAllowed_verbs srv ns ra (Verbs ra) missingPermissions log of
        (Inl err, log1) \<Rightarrow> (Inl err, log1)
      | (Inr missingPermissions1, log1) \<Rightarrow>
          IsAllowed_attributes srv ns attributes missingPermissions1 log1)"

fun IsAllowed_namespaces ::
  "review_server \<Rightarrow> string list \<Rightarrow> ResourceAttribute list \<Rightarrow> error list
     \<Rightarrow> ResourceAttributes list \<Rightarrow> (error + error list) \<times> ResourceAttributes list" where
  "IsAllowed_namespaces srv [] attributes missingPermissions log = (Inr missingPermissions, log)"
| "IsAllowed_namespaces srv (ns # namespaces) attributes missingPermissions log =
     (case IsAllowed_attributes srv ns attributes missingPermissions log of
        (Inl err, log1) \<Rightarrow> (Inl err, log1)
      | (Inr missingPermissions1, log1) \<Rightarrow>
          IsAllowed_namespaces srv namespaces attributes missingPermissions1 log1)"

text \<open>
  \<^verbatim>\<open>IsAllowed\<close>: the three values returned (a \<^verbatim>\<open>nil\<close> slice is the empty list), and
  the log of reviews.
\<close>

definition IsAllowed ::
  "review_server \<Rightarrow> string list \<Rightarrow> ResourceAttribute list \<Rightarrow> ResourceAttributes list
     \<Rightarrow> (bool \<times> error list \<times> error option) \<times> ResourceAttributes list" where
  "IsAllowed ssarClient namespaces attributes log =
     (if length attributes = 0
      then ((False, [], Some (ErrorString ''resource attributes must not be empty'')), log)
      else
        let namespaces1 = (if length namespaces = 0 then [NamespaceAll] else namespaces)
        in (case IsAllowed_namespaces ssarClient namespaces1 attributes [] log of
              (Inl err, log1) \<Rightarrow> ((False, [], Some err), log1)
            | (Inr missingPermissions, log1) \<Rightarrow>
                ((length missingPermissions = 0, missingPermissions, None), log1)))"

subsection \<open>Auxiliary notions and examples\<close>

text \<open>
  Worded after the specification, for comparison with \<^verbatim>\<open>mergeOwnerReferences\<close>. There
  an owner reference is its api version, kind, name, uid and flags, and two references
  have the same full identity when they agree on all of them, the flags as values: both
  \<^verbatim>\<open>nil\<close>, or both pointing to the same boolean. The memory gives the boolean that an
  address holds. The merge of the specification keeps the observed references and appends
  the desired ones whose identity is not among the observed ones.
\<close>

type_synonym memory = "nat \<Rightarrow> bool"

definition flag :: "memory \<Rightarrow> nat option \<Rightarrow> bool option" where
  "flag mem p = map_option mem p"

definition sameIdentity :: "memory \<Rightarrow> OwnerReference \<Rightarrow> OwnerReference \<Rightarrow> bool" where
  "sameIdentity mem a b =
     (APIVersion a = APIVersion b \<and> Kind a = Kind b
      \<and> OwnerReference.Name a = OwnerReference.Name b \<and> UID a = UID b
      \<and> flag mem (Controller a) = flag mem (Controller b)
      \<and> flag mem (BlockOwnerDeletion a) = flag mem (BlockOwnerDeletion b))"

definition mergeOwnerReferences_spec ::
  "memory \<Rightarrow> OwnerReference list \<Rightarrow> OwnerReference list \<Rightarrow> OwnerReference list" where
  "mergeOwnerReferences_spec mem observedRefs desiredRefs =
     observedRefs @ filter (\<lambda>d. \<not> list_ex (sameIdentity mem d) observedRefs) desiredRefs"

text \<open>
  The reference to one owner, as the API server returns it (the decoder allocates the two
  flags) and as the operator builds it (\<^verbatim>\<open>ptr.To(true)\<close> allocates them again): four
  addresses, each holding \<^verbatim>\<open>true\<close>.
\<close>

definition observedRef :: OwnerReference where
  "observedRef =
     \<lparr>APIVersion = ''monitoring.coreos.com/v1'', Kind = ''Prometheus'',
      OwnerReference.Name = ''k8s'', UID = ''4c1f'',
      Controller = Some 1, BlockOwnerDeletion = Some 2\<rparr>"

definition desiredRef :: OwnerReference where
  "desiredRef =
     \<lparr>APIVersion = ''monitoring.coreos.com/v1'', Kind = ''Prometheus'',
      OwnerReference.Name = ''k8s'', UID = ''4c1f'',
      Controller = Some 3, BlockOwnerDeletion = Some 4\<rparr>"

definition allTrue :: memory where
  "allTrue a = True"

text \<open>
  The property of a log of requests to a service client that the claim on immutable fields
  is about: every update comes right after a read of \<open>name\<close> that the server answered
  with a service, and carries the four immutable fields of that answer.
\<close>

definition carried :: "Service server \<Rightarrow> string \<Rightarrow> Service call list \<Rightarrow> bool" where
  "carried sclient name log =
     (\<forall>i w. i < length log \<and> log ! i = UpdateCall w \<longrightarrow>
        (\<exists>service. 0 < i \<and> log ! (i - 1) = GetCall name
           \<and> sclient (take i log) = Inr service
           \<and> ClusterIP (Spec w) = ClusterIP (Spec service)
           \<and> ClusterIPs (Spec w) = ClusterIPs (Spec service)
           \<and> IPFamilies (Spec w) = IPFamilies (Spec service)
           \<and> IPFamilyPolicy (Spec w) = IPFamilyPolicy (Spec service)))"

text \<open>The services of the test \<^verbatim>\<open>TestCreateOrUpdateImmutableFields\<close>.\<close>

definition observedService :: Service where
  "observedService =
     \<lparr>ObjectMeta = \<lparr>ObjectMeta.Name = ''prometheus-operated-test'', ResourceVersion = ''7'',
                    Labels = None, Annotations = None, OwnerReferences = []\<rparr>,
      Spec = \<lparr>ClusterIP = ''127.0.0.1'', ClusterIPs = [''127.0.0.1'', ''192.168.0.159''],
              IPFamilies = [''IPv6''], IPFamilyPolicy = Some ''RequireDualStack''\<rparr>\<rparr>"

definition desiredService :: Service where
  "desiredService =
     \<lparr>ObjectMeta = \<lparr>ObjectMeta.Name = ''prometheus-operated-test'', ResourceVersion = '''',
                    Labels = None, Annotations = None, OwnerReferences = []\<rparr>,
      Spec = \<lparr>ClusterIP = '''', ClusterIPs = [], IPFamilies = [], IPFamilyPolicy = None\<rparr>\<rparr>"

text \<open>A server that holds one object: it answers a read with it and accepts every write.\<close>

definition holding :: "'o \<Rightarrow> 'o server" where
  "holding obj log =
     (case last log of
        GetCall name \<Rightarrow> Inr obj
      | CreateCall new \<Rightarrow> Inr new
      | UpdateCall new \<Rightarrow> Inr new
      | DeleteCall name opts \<Rightarrow> Inr obj)"

definition conflictOnce :: "'o \<Rightarrow> 'o server" where
  "conflictOnce obj log =
     (if length log = 1
      then Inl (StatusError \<lparr>Code = 409, Reason = StatusReasonConflict, Details = None\<rparr>)
      else holding obj log)"

definition unnamedSlice :: EndpointSlice where
  "unnamedSlice =
     \<lparr>ObjectMeta = \<lparr>ObjectMeta.Name = '''', ResourceVersion = '''',
                    Labels = Some [''app'' \<mapsto> ''prometheus''], Annotations = None,
                    OwnerReferences = []\<rparr>,
      Spec = ()\<rparr>"

text \<open>
  Stateful sets for the examples: one in the cluster whose pod template holds a restart
  marker, and a desired one with given annotations on its pod template. A server that
  holds an object and rejects every update with a given status.
\<close>

definition restartedSset :: StatefulSet where
  "restartedSset =
     \<lparr>ObjectMeta = \<lparr>ObjectMeta.Name = ''prometheus'', ResourceVersion = ''3'',
                    Labels = None, Annotations = None, OwnerReferences = []\<rparr>,
      Spec = \<lparr>Template =
                \<lparr>ObjectMeta = \<lparr>ObjectMeta.Name = '''', ResourceVersion = '''', Labels = None,
                   Annotations = Some [''kubectl.kubernetes.io/restartedAt'' \<mapsto> ''yesterday''],
                   OwnerReferences = []\<rparr>,
                 Spec = ()\<rparr>\<rparr>\<rparr>"

definition desiredSset :: "gomap \<Rightarrow> StatefulSet" where
  "desiredSset templateAnnotations =
     \<lparr>ObjectMeta = \<lparr>ObjectMeta.Name = ''prometheus'', ResourceVersion = '''',
                    Labels = None, Annotations = None, OwnerReferences = []\<rparr>,
      Spec = \<lparr>Template =
                \<lparr>ObjectMeta = \<lparr>ObjectMeta.Name = '''', ResourceVersion = '''', Labels = None,
                   Annotations = templateAnnotations, OwnerReferences = []\<rparr>,
                 Spec = ()\<rparr>\<rparr>\<rparr>"

definition rejecting :: "Status \<Rightarrow> 'o \<Rightarrow> 'o server" where
  "rejecting st obj log =
     (case last log of
        UpdateCall new \<Rightarrow> Inl (StatusError st)
      | _ \<Rightarrow> Inr obj)"

text \<open>
  The combinations that the three loops of \<^verbatim>\<open>IsAllowed\<close> visit, in their order, and the
  reviews built for them.
\<close>

definition combinations ::
  "string list \<Rightarrow> ResourceAttribute list \<Rightarrow> (string \<times> ResourceAttribute \<times> string) list" where
  "combinations namespaces attributes =
     concat (map (\<lambda>ns. concat (map (\<lambda>ra. map (\<lambda>verb. (ns, ra, verb)) (Verbs ra)) attributes))
               namespaces)"

definition reviews :: "(string \<times> ResourceAttribute \<times> string) list \<Rightarrow> ResourceAttributes list" where
  "reviews cs = map (\<lambda>(ns, ra, verb). review ns ra verb) cs"

text \<open>The answers of the server to the reviews \<open>rs\<close>, sent one after another after \<open>log\<close>.\<close>

fun answers ::
  "review_server \<Rightarrow> ResourceAttributes list \<Rightarrow> ResourceAttributes list \<Rightarrow> (error + bool) list" where
  "answers srv log [] = []"
| "answers srv log (r # rs) = srv (log @ [r]) # answers srv (log @ [r]) rs"

text \<open>The reasons for the combinations whose review was answered with not allowed.\<close>

definition denials ::
  "(string \<times> ResourceAttribute \<times> string) list \<Rightarrow> (error + bool) list \<Rightarrow> error list" where
  "denials cs as =
     concat (map (\<lambda>((ns, ra, verb), a). if a = Inr False then [missingPermission ns ra verb] else [])
               (zip cs as))"

text \<open>The three loops as one loop over the combinations.\<close>

fun IsAllowed_scan ::
  "review_server \<Rightarrow> (string \<times> ResourceAttribute \<times> string) list \<Rightarrow> error list
     \<Rightarrow> ResourceAttributes list \<Rightarrow> (error + error list) \<times> ResourceAttributes list" where
  "IsAllowed_scan srv [] missingPermissions log = (Inr missingPermissions, log)"
| "IsAllowed_scan srv ((ns, ra, verb) # cs) missingPermissions log =
     (case ssar_Create srv (review ns ra verb) log of
        (Inl err, log1) \<Rightarrow> (Inl err, log1)
      | (Inr allowed, log1) \<Rightarrow>
          IsAllowed_scan srv cs
            (if \<not> allowed then missingPermissions @ [missingPermission ns ra verb]
             else missingPermissions) log1)"

text \<open>
  An attribute and review servers for the examples: one denies a verb and allows every
  other review; one denies every review and fails on the review of a given number.
\<close>

definition podsAttribute :: ResourceAttribute where
  "podsAttribute =
     \<lparr>ResourceAttribute.Resource = ''pods'', ResourceAttribute.Name = '''',
      ResourceAttribute.Group = '''', ResourceAttribute.Version = ''v1'',
      Verbs = [''get'', ''list'']\<rparr>"

definition denyVerb :: "string \<Rightarrow> review_server" where
  "denyVerb verb log = Inr (Verb (last log) \<noteq> verb)"

definition failAt :: "nat \<Rightarrow> error \<Rightarrow> review_server" where
  "failAt n err log = (if length log = n then Inl err else Inr False)"


section \<open>The resource namer\<close>

declare hex.simps [simp del] decimal.simps [simp del]
declare stripes.simps [simp del] words8.simps [simp del]

subsection \<open>The hexadecimal rendering\<close>

lemma hexdigit_alnum: "d < 16 \<Longrightarrow> alnum (hexdigit d)"
proof -
  have "\<forall>d \<in> set [0..<16]. alnum (hexdigit d)"
    by (simp add: upt_rec hexdigit_def alnum_def isLower_def isDigit_def)
  then show "d < 16 \<Longrightarrow> alnum (hexdigit d)" by simp
qed

lemma hex_alnum: "list_all alnum (hex n)"
proof (induction n rule: hex.induct)
  case (1 n)
  show ?case
  proof (cases "n < 16")
    case True
    then show ?thesis by (simp add: hex.simps [of n] hexdigit_alnum)
  next
    case False
    with 1 show ?thesis by (simp add: hex.simps [of n] hexdigit_alnum)
  qed
qed

lemma hex_not_Nil: "hex n \<noteq> []"
  by (simp add: hex.simps [of n])

text \<open>A number has more than \<open>k\<close> hexadecimal digits exactly when it reaches \<open>16 ^ k\<close>.\<close>

lemma length_hex: "0 < k \<Longrightarrow> (k < length (hex n)) = (16 ^ k \<le> n)"
proof (induction n arbitrary: k rule: hex.induct)
  case (1 n)
  show ?case
  proof (cases "n < 16")
    case True
    have "(16::nat) ^ 1 \<le> 16 ^ k" using 1(2) by (intro power_increasing) auto
    with True 1(2) show ?thesis by (simp add: hex.simps [of n])
  next
    case False
    show ?thesis
    proof (cases "k = 1")
      case True
      with False show ?thesis
        using hex_not_Nil [of "n div 16"] by (simp add: hex.simps [of n])
    next
      case k: False
      with 1(2) obtain j where j: "k = Suc j" "0 < j" by (cases k) auto
      have "(j < length (hex (n div 16))) = (16 ^ j \<le> n div 16)"
        using 1(1) [OF False j(2)] .
      also have "\<dots> = (16 ^ j * 16 \<le> n)"
        by (simp add: less_eq_div_iff_mult_less_eq)
      finally show ?thesis using False j by (simp add: hex.simps [of n] mult.commute)
    qed
  qed
qed

lemma hex_suffix:
  assumes "2 ^ 28 \<le> n"
  shows "length (take 8 (hex n)) = 8" and "list_all alnum (take 8 (hex n))"
proof -
  have "(7 < length (hex n)) = (16 ^ 7 \<le> n)" by (rule length_hex) simp
  with assms show "length (take 8 (hex n)) = 8" by simp
  show "list_all alnum (take 8 (hex n))"
    using hex_alnum [of n] by (metis in_set_takeD list_all_iff)
qed

subsection \<open>The sanitized name\<close>

lemma ReplaceAllString_class:
  "list_all (\<lambda>c. \<not> cls c) repl \<Longrightarrow> list_all (\<lambda>c. \<not> cls c) (ReplaceAllString cls s repl)"
  by (induction cls s repl rule: ReplaceAllString.induct) auto

text \<open>Only characters of \<^verbatim>\<open>[-a-z0-9]\<close> are left, and the first one is no hyphen.\<close>

lemma sanitizedLabel_chars: "list_all labelChar (sanitizedLabel rn name)"
proof -
  have "list_all (\<lambda>c. \<not> invalidDNS1123Characters c)
          (ReplaceAllString invalidDNS1123Characters s ''-'')" for s
    by (rule ReplaceAllString_class) (simp add: invalidDNS1123Characters_def labelChar_def)
  then have *: "list_all labelChar (ReplaceAllString invalidDNS1123Characters s ''-'')" for s
    by (simp add: invalidDNS1123Characters_def)
  have "set (Trim s cs) \<subseteq> set s" for s cs
    by (metis Trim_def TrimRight_def set_dropWhileD set_rev subsetI)
  with * show ?thesis
    unfolding sanitizedLabel_def Let_def list_all_iff by blast
qed

lemma Trim_hd: "Trim s cs \<noteq> [] \<Longrightarrow> hd (Trim s cs) \<notin> set cs"
  unfolding Trim_def by (metis hd_dropWhile)

lemma not_alnum_hyphen: "\<not> alnum (CHR ''-'')"
  by (simp add: alnum_def isLower_def isDigit_def)

lemma sanitizedLabel_hd:
  assumes "sanitizedLabel rn name \<noteq> []"
  shows "alnum (hd (sanitizedLabel rn name))"
proof -
  have "hd (sanitizedLabel rn name) \<in> set (sanitizedLabel rn name)" using assms by simp
  then have "labelChar (hd (sanitizedLabel rn name))"
    using sanitizedLabel_chars [of rn name] by (simp add: list_all_iff)
  moreover have "hd (sanitizedLabel rn name) \<noteq> CHR ''-''"
    using assms Trim_hd [of _ "''-''"] unfolding sanitizedLabel_def Let_def by fastforce
  ultimately show ?thesis by (simp add: labelChar_def)
qed

subsection \<open>The label grammar\<close>

text \<open>
  The matcher accepts the language of \<^verbatim>\<open>[a-z0-9]([-a-z0-9]*[a-z0-9])?\<close>: one
  alphanumeric character, or an alphanumeric character, any characters of the class and
  an alphanumeric character.
\<close>

lemma MatchString_iff:
  "dns1123LabelRegexp_MatchString s =
     (\<exists>a. alnum a \<and> (s = [a] \<or> (\<exists>m z. s = a # m @ [z] \<and> list_all labelChar m \<and> alnum z)))"
proof (cases s)
  case Nil
  then show ?thesis by simp
next
  case (Cons c cs)
  show ?thesis
  proof (cases "cs = []")
    case True
    with Cons show ?thesis by auto
  next
    case False
    then have "cs = butlast cs @ [last cs]" by simp
    then show ?thesis using Cons False
      by (metis butlast_snoc dns1123LabelRegexp_MatchString.simps(2) last_snoc list.inject
          snoc_eq_iff_butlast)
  qed
qed

lemma MatchString_append:
  assumes "body \<noteq> []" "list_all labelChar body" "alnum (hd body)"
    and "list_all labelChar sfx" "sfx \<noteq> []" "alnum (last sfx)"
  shows "dns1123LabelRegexp_MatchString (body @ sfx)"
proof -
  obtain c cs where b: "body = c # cs" using assms(1) by (cases body) auto
  have "list_all labelChar (cs @ sfx)" using assms b by simp
  then have "list_all labelChar (butlast (cs @ sfx))"
    by (metis in_set_butlastD list_all_iff)
  moreover have "last (cs @ sfx) = last sfx" using assms(5) by simp
  ultimately show ?thesis using assms b by simp
qed

lemma IsDNS1123Label_Nil:
  "(IsDNS1123Label s = []) = (length s \<le> 63 \<and> dns1123LabelRegexp_MatchString s)"
  by (auto simp: IsDNS1123Label_def DNS1123LabelMaxLength_def)

lemma isValidDNS1123Label_None:
  "(isValidDNS1123Label s = None) = (length s \<le> 63 \<and> dns1123LabelRegexp_MatchString s)"
  by (auto simp: isValidDNS1123Label_def Let_def IsDNS1123Label_Nil [symmetric])

subsection \<open>The unique label\<close>

lemma unique_candidate_valid:
  assumes "2 ^ 28 \<le> n" "sanitizedLabel rn name \<noteq> []"
  shows "IsDNS1123Label (take 54 (sanitizedLabel rn name) @ CHR ''-'' # take 8 (hex n)) = []"
proof -
  let ?b = "take 54 (sanitizedLabel rn name)"
  let ?d = "take 8 (hex n)"
  have d: "length ?d = 8" "list_all alnum ?d" using hex_suffix [OF assms(1)] by auto
  have b: "?b \<noteq> []" using assms(2) by simp
  have "list_all labelChar ?b"
    using sanitizedLabel_chars [of rn name] by (metis in_set_takeD list_all_iff)
  moreover have "alnum (hd ?b)"
    using sanitizedLabel_hd [OF assms(2)] assms(2) by (simp add: hd_take)
  moreover have "list_all labelChar (CHR ''-'' # ?d)"
    using d(2) by (simp add: labelChar_def list_all_iff)
  moreover have "alnum (last (CHR ''-'' # ?d))"
    using d by (cases ?d rule: rev_cases) auto
  ultimately have "dns1123LabelRegexp_MatchString (?b @ CHR ''-'' # ?d)"
    using b by (intro MatchString_append) auto
  moreover have "length (?b @ CHR ''-'' # ?d) \<le> 63" using d(1) by simp
  ultimately show ?thesis by (simp add: IsDNS1123Label_Nil)
qed

lemma unique_candidate_invalid:
  assumes "2 ^ 28 \<le> n"
  shows "IsDNS1123Label (CHR ''-'' # take 8 (hex n)) = [RegexError]"
  using hex_suffix(1) [OF assms]
  by (simp add: IsDNS1123Label_def DNS1123LabelMaxLength_def not_alnum_hyphen)

lemma UniqueDNS1123Label_eq:
  assumes "2 ^ 28 \<le> unat (Sum64 name)"
  shows "UniqueDNS1123Label rn name =
     (if sanitizedLabel rn name = [] then Inr ('''', Some (ValidationError [RegexError]))
      else Inr (take 54 (sanitizedLabel rn name) @ ''-'' @ take 8 (hex (unat (Sum64 name))), None))"
proof -
  let ?n = "unat (Sum64 name)"
  have "length (take 8 (hex ?n)) = 8" using hex_suffix(1) [OF assms] .
  then have l8: "8 \<le> length (hex ?n)" by simp
  show ?thesis
  proof (cases "sanitizedLabel rn name = []")
    case True
    then show ?thesis
      using l8 unique_candidate_invalid [OF assms]
      by (simp add: UniqueDNS1123Label_def Let_def DNS1123LabelMaxLength_def)
  next
    case False
    then show ?thesis
      using l8 unique_candidate_valid [OF assms False]
      by (cases "54 < length (sanitizedLabel rn name)")
         (simp_all add: UniqueDNS1123Label_def Let_def DNS1123LabelMaxLength_def
          isValidDNS1123Label_def)
  qed
qed

text \<open>The function panics exactly when the hash has fewer than eight hexadecimal digits.\<close>

lemma UniqueDNS1123Label_panic:
  "(UniqueDNS1123Label rn name = Inl SliceBoundsOutOfRange) = (unat (Sum64 name) < 2 ^ 28)"
proof -
  have "(7 < length (hex (unat (Sum64 name)))) = (16 ^ 7 \<le> unat (Sum64 name))"
    by (rule length_hex) simp
  then show ?thesis
    by (auto simp: UniqueDNS1123Label_def Let_def)
qed

subsection \<open>The examples of the test suite\<close>

lemma Sum64_NAME: "Sum64 ''NAME'' = 0x4cfd357450b2090a"
  by code_simp

lemma Sum64_foo: "Sum64 ''foo--'' = 0xe705c7c870e4fd92"
  by code_simp

lemma Sum64_foobar: "Sum64 ''foo^%#$bar'' = 0xf3e212b11660bce3"
  by code_simp

lemma Sum64_name: "Sum64 ''name'' = 0x6c5f7b2e4a79fd6d"
  by code_simp

lemma Sum64_symbols: "Sum64 ''@$!!@$%!#$%!#$%!#$!#$%%$#@!#'' = 0x5f070fea65bf5a95"
  by code_simp

lemma hex_NAME: "hex (unat (Sum64 ''NAME'')) = ''4cfd357450b2090a''"
  by (simp add: Sum64_NAME hex.simps hexdigit_def)

lemma hex_foo: "hex (unat (Sum64 ''foo--'')) = ''e705c7c870e4fd92''"
  by (simp add: Sum64_foo hex.simps hexdigit_def)

lemma hex_foobar: "hex (unat (Sum64 ''foo^%#$bar'')) = ''f3e212b11660bce3''"
  by (simp add: Sum64_foobar hex.simps hexdigit_def)

lemma hex_name: "hex (unat (Sum64 ''name'')) = ''6c5f7b2e4a79fd6d''"
  by (simp add: Sum64_name hex.simps hexdigit_def)

lemma sanitizedLabel_NAME: "sanitizedLabel \<lparr>prefix = ''''\<rparr> ''NAME'' = ''name''"
  by code_simp

lemma sanitizedLabel_foo: "sanitizedLabel \<lparr>prefix = ''''\<rparr> ''foo--'' = ''foo''"
  by code_simp

lemma sanitizedLabel_foobar: "sanitizedLabel \<lparr>prefix = ''''\<rparr> ''foo^%#$bar'' = ''foo-bar''"
  by code_simp

lemma sanitizedLabel_name: "sanitizedLabel \<lparr>prefix = ''with-prefix-''\<rparr> ''name'' = ''with-prefix-name''"
  by code_simp

lemma sanitizedLabel_symbols:
  "sanitizedLabel \<lparr>prefix = ''''\<rparr> ''@$!!@$%!#$%!#$%!#$!#$%%$#@!#'' = ''''"
  by code_simp

text \<open>
  Beyond ASCII: the Kelvin sign (U+212A, three bytes) is lower-cased to \<^verbatim>\<open>k\<close>, and
  a run of other bytes becomes one hyphen.
\<close>

lemma sanitizedLabel_kelvin:
  "sanitizedLabel \<lparr>prefix = ''''\<rparr> [CHR 0xE2, CHR 0x84, CHR 0xAA, CHR ''8'', CHR ''S'',
      CHR 0xC3, CHR 0x89, CHR 0xC3, CHR 0xA9, CHR ''x''] = ''k8s-x''"
  by code_simp

lemma Unique_NAME: "UniqueDNS1123Label \<lparr>prefix = ''''\<rparr> ''NAME'' = Inr (''name-4cfd3574'', None)"
proof -
  have h: "2 ^ 28 \<le> unat (Sum64 ''NAME'')" by (simp add: Sum64_NAME)
  show ?thesis by (simp add: UniqueDNS1123Label_eq [OF h] hex_NAME sanitizedLabel_NAME)
qed

lemma Unique_foo: "UniqueDNS1123Label \<lparr>prefix = ''''\<rparr> ''foo--'' = Inr (''foo-e705c7c8'', None)"
proof -
  have h: "2 ^ 28 \<le> unat (Sum64 ''foo--'')" by (simp add: Sum64_foo)
  show ?thesis by (simp add: UniqueDNS1123Label_eq [OF h] hex_foo sanitizedLabel_foo)
qed

lemma Unique_foobar:
  "UniqueDNS1123Label \<lparr>prefix = ''''\<rparr> ''foo^%#$bar'' = Inr (''foo-bar-f3e212b1'', None)"
proof -
  have h: "2 ^ 28 \<le> unat (Sum64 ''foo^%#$bar'')" by (simp add: Sum64_foobar)
  show ?thesis by (simp add: UniqueDNS1123Label_eq [OF h] hex_foobar sanitizedLabel_foobar)
qed

lemma Unique_symbols:
  "UniqueDNS1123Label \<lparr>prefix = ''''\<rparr> ''@$!!@$%!#$%!#$%!#$!#$%%$#@!#''
     = Inr ('''', Some (ValidationError [RegexError]))"
proof -
  have h: "2 ^ 28 \<le> unat (Sum64 ''@$!!@$%!#$%!#$%!#$!#$%%$#@!#'')" by (simp add: Sum64_symbols)
  show ?thesis by (simp add: UniqueDNS1123Label_eq [OF h] sanitizedLabel_symbols)
qed

subsection \<open>The claims on the resource namer\<close>

text \<open>
  Claim C1, as amended. For every namer and every name whose hash has at least eight
  hexadecimal digits (it is at least \<open>2 ^ 28\<close>; below that the slice \<^verbatim>\<open>h[:9]\<close> is out
  of range), \<^verbatim>\<open>UniqueDNS1123Label\<close> hashes the bytes of the name as given, and its
  suffix is a hyphen followed by the first eight characters of the hexadecimal rendering
  of the hash, which are its highest-order digits: nine characters. The name is sanitized
  (the prefix without its trailing hyphens and a hyphen go in front when a prefix is set,
  the text is lower-cased, each run of characters outside \<^verbatim>\<open>[-a-z0-9]\<close> becomes one
  hyphen, hyphens at both ends are trimmed) and cut to \<open>63 - 9\<close> characters. When the
  sanitized name is empty the function returns a validation error and the empty string;
  otherwise it returns the cut name followed by the suffix. The three examples hold.
\<close>

theorem UniqueDNS1123Label_result:
  assumes "2 ^ 28 \<le> unat (Sum64 name)"
  shows "UniqueDNS1123Label rn name =
           (if sanitizedLabel rn name = []
            then Inr ('''', Some (ValidationError [RegexError]))
            else Inr (take (63 - 9) (sanitizedLabel rn name)
                        @ ''-'' @ take 8 (hex (unat (Sum64 name))), None))
         \<and> length (''-'' @ take 8 (hex (unat (Sum64 name)))) = 9
         \<and> sanitizedLabel rn name =
             Trim (ReplaceAllString invalidDNS1123Characters
                     (ToLower ((if prefix rn \<noteq> [] then TrimRight (prefix rn) ''-'' @ ''-'' else [])
                               @ name)) ''-'') ''-''
         \<and> UniqueDNS1123Label \<lparr>prefix = ''''\<rparr> ''NAME'' = Inr (''name-4cfd3574'', None)
         \<and> UniqueDNS1123Label \<lparr>prefix = ''''\<rparr> ''foo--'' = Inr (''foo-e705c7c8'', None)
         \<and> UniqueDNS1123Label \<lparr>prefix = ''''\<rparr> ''foo^%#$bar'' = Inr (''foo-bar-f3e212b1'', None)"
proof -
  have "length (take 8 (hex (unat (Sum64 name)))) = 8"
    using hex_suffix(1) [OF assms] .
  moreover have "sanitizedLabel rn name =
      Trim (ReplaceAllString invalidDNS1123Characters
              (ToLower ((if prefix rn \<noteq> [] then TrimRight (prefix rn) ''-'' @ ''-'' else [])
                        @ name)) ''-'') ''-''"
    by (simp add: sanitizedLabel_def Let_def)
  ultimately show ?thesis
    using UniqueDNS1123Label_eq [OF assms, of rn] Unique_NAME Unique_foo Unique_foobar
    by simp
qed

theorem UniqueDNS1123Label_result_witness:
  "2 ^ 28 \<le> unat (Sum64 ''name'')
   \<and> UniqueDNS1123Label \<lparr>prefix = ''with-prefix-''\<rparr> ''name''
       = Inr (''with-prefix-name-6c5f7b2e'', None)"
proof -
  have h: "2 ^ 28 \<le> unat (Sum64 ''name'')" by (simp add: Sum64_name)
  show ?thesis
    using h UniqueDNS1123Label_result [OF h, of "\<lparr>prefix = ''with-prefix-''\<rparr>"]
    by (simp add: hex_name sanitizedLabel_name)
qed

text \<open>
  The claim as it was stated fails twice. On \<^verbatim>\<open>NAME\<close> the hash is
  \<^verbatim>\<open>4cfd357450b2090a\<close>: the label returned ends in its first eight digits, and the
  eight lowest-order digits would give another label. On a name of symbols only the
  function returns an error and the empty string, not a concatenation.
\<close>

theorem UniqueDNS1123Label_counterexample:
  "UniqueDNS1123Label \<lparr>prefix = ''''\<rparr> ''NAME''
     \<noteq> Inr (take (63 - 9) (sanitizedLabel \<lparr>prefix = ''''\<rparr> ''NAME'')
              @ ''-'' @ lowest8_hex (unat (Sum64 ''NAME'')), None)
   \<and> UniqueDNS1123Label \<lparr>prefix = ''''\<rparr> ''NAME'' = Inr (''name-4cfd3574'', None)
   \<and> hex (unat (Sum64 ''NAME'')) = ''4cfd357450b2090a''
   \<and> lowest8_hex (unat (Sum64 ''NAME'')) = ''50b2090a''
   \<and> UniqueDNS1123Label \<lparr>prefix = ''''\<rparr> ''@$!!@$%!#$%!#$%!#$!#$%%$#@!#''
        = Inr ('''', Some (ValidationError [RegexError]))"
proof -
  have "lowest8_hex (unat (Sum64 ''NAME'')) = ''50b2090a''"
    by (simp add: Sum64_NAME lowest8_hex_def hexdigit_def)
  then show ?thesis
    using Unique_NAME Unique_symbols hex_NAME by (simp add: sanitizedLabel_NAME)
qed

text \<open>
  What the two functions guarantee. A string returned with a \<^verbatim>\<open>nil\<close> error matches
  \<^verbatim>\<open>[a-z0-9]([-a-z0-9]*[a-z0-9])?\<close> and has at most 63 characters. When the string that
  \<^verbatim>\<open>DNS1123Label\<close> validates (the sanitized name cut to 63 characters) does not match the
  grammar, it returns a validation error; an empty sanitized name is such a case.
  \<^verbatim>\<open>UniqueDNS1123Label\<close> does so, with the empty string beside the error, only when the
  hash renders to eight digits or more.
\<close>

lemma labels_valid_or_error:
  "(DNS1123Label rn name = (s, None)
      \<longrightarrow> dns1123LabelRegexp_MatchString s \<and> length s \<le> 63)
   \<and> (UniqueDNS1123Label rn name = Inr (s, None)
      \<longrightarrow> dns1123LabelRegexp_MatchString s \<and> length s \<le> 63)
   \<and> (\<not> dns1123LabelRegexp_MatchString (take 63 (sanitizedLabel rn name))
      \<longrightarrow> DNS1123Label rn name
            = (take 63 (sanitizedLabel rn name), Some (ValidationError [RegexError])))
   \<and> (2 ^ 28 \<le> unat (Sum64 name)
        \<and> \<not> dns1123LabelRegexp_MatchString
              (take 54 (sanitizedLabel rn name) @ ''-'' @ take 8 (hex (unat (Sum64 name))))
      \<longrightarrow> UniqueDNS1123Label rn name = Inr ('''', Some (ValidationError [RegexError])))
   \<and> (sanitizedLabel rn name = []
      \<longrightarrow> DNS1123Label rn name = ('''', Some (ValidationError [RegexError])))"
proof -
  have t: "(if 63 < length x then take 63 x else x) = take 63 x" for x :: string by simp
  have d: "DNS1123Label rn name
             = (take 63 (sanitizedLabel rn name),
                isValidDNS1123Label (take 63 (sanitizedLabel rn name)))"
    by (simp add: DNS1123Label_def Let_def DNS1123LabelMaxLength_def t)
  have 1: "DNS1123Label rn name = (s, None)
             \<longrightarrow> dns1123LabelRegexp_MatchString s \<and> length s \<le> 63"
    using d isValidDNS1123Label_None by auto
  have 2: "UniqueDNS1123Label rn name = Inr (s, None)
             \<longrightarrow> dns1123LabelRegexp_MatchString s \<and> length s \<le> 63"
    by (auto simp: UniqueDNS1123Label_def Let_def isValidDNS1123Label_None
        split: if_splits)
  have 3: "\<not> dns1123LabelRegexp_MatchString (take 63 (sanitizedLabel rn name))
             \<longrightarrow> DNS1123Label rn name
                   = (take 63 (sanitizedLabel rn name), Some (ValidationError [RegexError]))"
    by (simp add: d isValidDNS1123Label_def IsDNS1123Label_def DNS1123LabelMaxLength_def)
  have 4: "2 ^ 28 \<le> unat (Sum64 name)
        \<and> \<not> dns1123LabelRegexp_MatchString
              (take 54 (sanitizedLabel rn name) @ ''-'' @ take 8 (hex (unat (Sum64 name))))
      \<longrightarrow> UniqueDNS1123Label rn name = Inr ('''', Some (ValidationError [RegexError]))"
  proof (intro impI, elim conjE)
    assume h: "2 ^ 28 \<le> unat (Sum64 name)"
      and n: "\<not> dns1123LabelRegexp_MatchString
              (take 54 (sanitizedLabel rn name) @ ''-'' @ take 8 (hex (unat (Sum64 name))))"
    have "sanitizedLabel rn name = []"
    proof (rule ccontr)
      assume "sanitizedLabel rn name \<noteq> []"
      from unique_candidate_valid [OF h this] n show False
        by (simp add: IsDNS1123Label_Nil)
    qed
    then show "UniqueDNS1123Label rn name = Inr ('''', Some (ValidationError [RegexError]))"
      by (simp add: UniqueDNS1123Label_eq [OF h])
  qed
  have 5: "sanitizedLabel rn name = []
             \<longrightarrow> DNS1123Label rn name = ('''', Some (ValidationError [RegexError]))"
    by (simp add: d isValidDNS1123Label_def IsDNS1123Label_def DNS1123LabelMaxLength_def)
  from 1 2 3 4 5 show ?thesis by blast
qed

lemma DNS1123Label_NAME: "DNS1123Label \<lparr>prefix = ''''\<rparr> ''NAME'' = (''name'', None)"
  by code_simp

lemma DNS1123Label_symbols:
  "DNS1123Label \<lparr>prefix = ''''\<rparr> ''@$!!@$%!#$%!#$%!#$!#$%%$#@!#''
     = ('''', Some (ValidationError [RegexError]))"
  by code_simp

lemma labels_valid_or_error_examples:
  "DNS1123Label \<lparr>prefix = ''''\<rparr> ''NAME'' = (''name'', None)
   \<and> dns1123LabelRegexp_MatchString ''name'' \<and> length ''name'' \<le> 63
   \<and> UniqueDNS1123Label \<lparr>prefix = ''''\<rparr> ''NAME'' = Inr (''name-4cfd3574'', None)
   \<and> dns1123LabelRegexp_MatchString ''name-4cfd3574'' \<and> length ''name-4cfd3574'' \<le> 63
   \<and> sanitizedLabel \<lparr>prefix = ''''\<rparr> ''@$!!@$%!#$%!#$%!#$!#$%%$#@!#'' = []
   \<and> \<not> dns1123LabelRegexp_MatchString
         (take 63 (sanitizedLabel \<lparr>prefix = ''''\<rparr> ''@$!!@$%!#$%!#$%!#$!#$%%$#@!#''))
   \<and> DNS1123Label \<lparr>prefix = ''''\<rparr> ''@$!!@$%!#$%!#$%!#$!#$%%$#@!#''
       = ('''', Some (ValidationError [RegexError]))
   \<and> 2 ^ 28 \<le> unat (Sum64 ''@$!!@$%!#$%!#$%!#$!#$%%$#@!#'')
   \<and> UniqueDNS1123Label \<lparr>prefix = ''''\<rparr> ''@$!!@$%!#$%!#$%!#$!#$%%$#@!#''
       = Inr ('''', Some (ValidationError [RegexError]))"
proof -
  let ?rn = "\<lparr>prefix = ''''\<rparr>"
  let ?sym = "''@$!!@$%!#$%!#$%!#$!#$%%$#@!#''"
  have h: "2 ^ 28 \<le> unat (Sum64 ?sym)" by (simp add: Sum64_symbols)
  have n: "\<not> dns1123LabelRegexp_MatchString
             (take 54 (sanitizedLabel ?rn ?sym) @ ''-'' @ take 8 (hex (unat (Sum64 ?sym))))"
    by (simp add: sanitizedLabel_symbols not_alnum_hyphen)
  show ?thesis
    using labels_valid_or_error [of ?rn "''NAME''" "''name''"]
      labels_valid_or_error [of ?rn "''NAME''" "''name-4cfd3574''"]
      labels_valid_or_error [of ?rn ?sym "''''"]
      DNS1123Label_NAME Unique_NAME h n
    by (simp add: sanitizedLabel_symbols)
qed

lemma Sum64_short: "Sum64 ''#.$&;$=.'' = 0xac9f3d9"
  by code_simp

lemma Sum64_legal: "Sum64 ''prometheus-user-sxuufuaa'' = 0x2bf72d8"
  by code_simp

lemma sanitizedLabel_short: "sanitizedLabel \<lparr>prefix = ''''\<rparr> ''#.$&;$=.'' = ''''"
  by code_simp

lemma DNS1123Label_short:
  "DNS1123Label \<lparr>prefix = ''''\<rparr> ''#.$&;$=.'' = ('''', Some (ValidationError [RegexError]))"
  by code_simp

text \<open>
  Claim C2. A label returned with a \<^verbatim>\<open>nil\<close> error matches the grammar and has at most
  63 characters, and a sanitized name that violates the grammar should give a validation
  error. \<^verbatim>\<open>UniqueDNS1123Label\<close> misses the second part on the name \<^verbatim>\<open>#.$&;$=.\<close>: its
  sanitized name is empty, which violates the grammar, and its hash renders to the seven
  digits \<^verbatim>\<open>ac9f3d9\<close>, so that the slice \<^verbatim>\<open>h[:9]\<close> of the eight characters of \<^verbatim>\<open>h\<close>
  is out of range. The function panics before it validates anything, where
  \<^verbatim>\<open>DNS1123Label\<close> returns the validation error for the same name.
\<close>

theorem UniqueDNS1123Label_short_hash_panics:
  "hex (unat (Sum64 ''#.$&;$=.'')) = ''ac9f3d9''
   \<and> sanitizedLabel \<lparr>prefix = ''''\<rparr> ''#.$&;$=.'' = ''''
   \<and> \<not> dns1123LabelRegexp_MatchString (sanitizedLabel \<lparr>prefix = ''''\<rparr> ''#.$&;$=.'')
   \<and> UniqueDNS1123Label \<lparr>prefix = ''''\<rparr> ''#.$&;$=.'' = Inl SliceBoundsOutOfRange
   \<and> DNS1123Label \<lparr>prefix = ''''\<rparr> ''#.$&;$=.''
        = ('''', Some (ValidationError [RegexError]))"
proof -
  have 1: "hex (unat (Sum64 ''#.$&;$=.'')) = ''ac9f3d9''"
    by (simp add: Sum64_short hex.simps hexdigit_def)
  have 2: "UniqueDNS1123Label \<lparr>prefix = ''''\<rparr> ''#.$&;$=.'' = Inl SliceBoundsOutOfRange"
    by (simp add: UniqueDNS1123Label_def Let_def 1)
  show ?thesis
    using 1 2 DNS1123Label_short by (simp add: sanitizedLabel_short)
qed

text \<open>
  The panic does not need an illegal name: \<^verbatim>\<open>prometheus-user-sxuufuaa\<close> is a label
  already, and its hash is below \<open>2 ^ 28\<close> as well.
\<close>

lemma DNS1123Label_legal:
  "DNS1123Label \<lparr>prefix = ''''\<rparr> ''prometheus-user-sxuufuaa''
     = (''prometheus-user-sxuufuaa'', None)"
  by code_simp

lemma UniqueDNS1123Label_legal_panics:
  "UniqueDNS1123Label \<lparr>prefix = ''''\<rparr> ''prometheus-user-sxuufuaa'' = Inl SliceBoundsOutOfRange"
  by (simp add: UniqueDNS1123Label_panic Sum64_legal)


section \<open>The finalizer patches\<close>

lemma decdigit_value: "d < 10 \<Longrightarrow> of_char (decdigit d) - 48 = d"
proof -
  have "\<forall>d \<in> set [0..<10]. (of_char (decdigit d) :: nat) - 48 = d"
    by (simp add: upt_rec decdigit_def)
  then show "d < 10 \<Longrightarrow> of_char (decdigit d) - 48 = d" by simp
qed

lemma parse_decimal_decimal: "parse_decimal (decimal n) = n"
proof (induction n rule: decimal.induct)
  case (1 n)
  show ?case
  proof (cases "n < 10")
    case True
    then show ?thesis by (simp add: decimal.simps [of n] parse_decimal_def decdigit_value)
  next
    case False
    with 1 have "parse_decimal (decimal (n div 10)) = n div 10" by simp
    with False show ?thesis
      by (simp add: decimal.simps [of n] parse_decimal_def decdigit_value)
  qed
qed

lemma decimal_inj: "decimal m = decimal n \<Longrightarrow> m = n"
  by (metis parse_decimal_decimal)

lemma FinalizerDeletePatch_from_first:
  "i < length fs \<Longrightarrow> fs ! i = n \<Longrightarrow> (\<forall>j<i. fs ! j \<noteq> n) \<Longrightarrow>
   FinalizerDeletePatch_from k fs n =
     json_Marshal
       [[(''op'', String ''test''),
         (''path'', String (''/metadata/finalizers/'' @ decimal (k + i))),
         (''value'', String n)],
        [(''op'', String ''remove''),
         (''path'', String (''/metadata/finalizers/'' @ decimal (k + i)))]]"
proof (induction fs arbitrary: i k)
  case Nil
  then show ?case by simp
next
  case (Cons f fs)
  show ?case
  proof (cases i)
    case 0
    with Cons.prems show ?thesis by simp
  next
    case (Suc i')
    with Cons.prems have "f \<noteq> n" by auto
    moreover have "FinalizerDeletePatch_from (Suc k) fs n =
      json_Marshal
       [[(''op'', String ''test''),
         (''path'', String (''/metadata/finalizers/'' @ decimal (Suc k + i'))),
         (''value'', String n)],
        [(''op'', String ''remove''),
         (''path'', String (''/metadata/finalizers/'' @ decimal (Suc k + i')))]]"
      using Cons.prems Suc by (intro Cons.IH) auto
    ultimately show ?thesis using Suc by simp
  qed
qed

lemma FinalizerDeletePatch_from_absent:
  "n \<notin> set fs \<Longrightarrow> FinalizerDeletePatch_from k fs n = (NilBytes, None)"
  by (induction fs arbitrary: k) auto

text \<open>
  Claim C5. \<^verbatim>\<open>FinalizerAddPatch\<close> returns the empty payload when the name is already in
  the list; one \<^verbatim>\<open>add\<close> operation that sets \<^verbatim>\<open>/metadata/finalizers\<close> to the list of
  the name alone when the list is empty; and otherwise one \<^verbatim>\<open>add\<close> operation at
  \<^verbatim>\<open>/metadata/finalizers/-\<close> with the name. \<^verbatim>\<open>FinalizerDeletePatch\<close> returns, for the
  first index \<open>i\<close> that holds the name, exactly two operations, a \<^verbatim>\<open>test\<close> that
  \<^verbatim>\<open>/metadata/finalizers/i\<close> is the name and a \<^verbatim>\<open>remove\<close> at the same path; and the
  \<^verbatim>\<open>nil\<close> payload when the name is not in the list. The index is written in decimal, which
  \<open>parse_decimal_decimal\<close> shows to name the index and no other.
\<close>

theorem finalizer_patches:
  "(finalizerName \<in> set finalizers
      \<longrightarrow> FinalizerAddPatch finalizers finalizerName = (EmptyBytes, None))
   \<and> (finalizers = []
      \<longrightarrow> FinalizerAddPatch finalizers finalizerName =
            (JSONBytes [[(''op'', String ''add''),
                         (''path'', String ''/metadata/finalizers''),
                         (''value'', Strings [finalizerName])]], None))
   \<and> (finalizerName \<notin> set finalizers \<and> finalizers \<noteq> []
      \<longrightarrow> FinalizerAddPatch finalizers finalizerName =
            (JSONBytes [[(''op'', String ''add''),
                         (''path'', String ''/metadata/finalizers/-''),
                         (''value'', String finalizerName)]], None))
   \<and> (i < length finalizers \<and> finalizers ! i = finalizerName
        \<and> (\<forall>j<i. finalizers ! j \<noteq> finalizerName)
      \<longrightarrow> FinalizerDeletePatch finalizers finalizerName =
            (JSONBytes [[(''op'', String ''test''),
                         (''path'', String (''/metadata/finalizers/'' @ decimal i)),
                         (''value'', String finalizerName)],
                        [(''op'', String ''remove''),
                         (''path'', String (''/metadata/finalizers/'' @ decimal i))]], None))
   \<and> (finalizerName \<notin> set finalizers
      \<longrightarrow> FinalizerDeletePatch finalizers finalizerName = (NilBytes, None))"
  using FinalizerDeletePatch_from_first [of i finalizers finalizerName 0]
    FinalizerDeletePatch_from_absent [of finalizerName finalizers 0]
  by (simp add: FinalizerAddPatch_def FinalizerDeletePatch_def json_Marshal_def)

lemma decimal_1: "decimal (Suc 0) = ''1''"
  by (simp add: decimal.simps decdigit_def)

theorem finalizer_patches_witness:
  "FinalizerAddPatch [''a'', ''F'', ''b''] ''F'' = (EmptyBytes, None)
   \<and> FinalizerAddPatch [] ''F'' =
        (JSONBytes [[(''op'', String ''add''),
                     (''path'', String ''/metadata/finalizers''),
                     (''value'', Strings [''F''])]], None)
   \<and> FinalizerAddPatch [''a'', ''b''] ''F'' =
        (JSONBytes [[(''op'', String ''add''),
                     (''path'', String ''/metadata/finalizers/-''),
                     (''value'', String ''F'')]], None)
   \<and> FinalizerDeletePatch [''a'', ''F'', ''b'', ''F''] ''F'' =
        (JSONBytes [[(''op'', String ''test''),
                     (''path'', String ''/metadata/finalizers/1''),
                     (''value'', String ''F'')],
                    [(''op'', String ''remove''),
                     (''path'', String ''/metadata/finalizers/1'')]], None)
   \<and> FinalizerDeletePatch [''a'', ''b''] ''F'' = (NilBytes, None)"
  using finalizer_patches [of "''F''" "[''a'', ''F'', ''b'']" 1]
    finalizer_patches [of "''F''" "[]" 0]
    finalizer_patches [of "''F''" "[''a'', ''b'']" 0]
    finalizer_patches [of "''F''" "[''a'', ''F'', ''b'', ''F'']" 1]
  by (simp add: decimal_1)


section \<open>The metadata merge\<close>

lemma existing_fold:
  "(fold (\<lambda>ownerRef m. m(ownerRef \<mapsto> True)) xs m0 r = None) = (r \<notin> set xs \<and> m0 r = None)"
  by (induction xs arbitrary: m0) auto

lemma append_fold:
  "fold (\<lambda>x old. if P x then old @ [x] else old) new old = old @ filter P new"
  by (induction new arbitrary: old) auto

text \<open>
  The code keeps the observed references, in their order and unchanged, and appends the
  desired references that are not keys of the map \<^verbatim>\<open>existing\<close>, in the order of the
  desired list. The keys are compared with Go's \<^verbatim>\<open>==\<close> on the struct, so the two flags
  are compared as pointers.
\<close>

lemma mergeOwnerReferences_eq:
  "mergeOwnerReferences oldObj newObj
     = oldObj @ filter (\<lambda>ownerRef. ownerRef \<notin> set oldObj) newObj"
  by (simp add: mergeOwnerReferences_def Let_def existing_fold append_fold)

text \<open>
  Where every flag is \<^verbatim>\<open>nil\<close> the comparison of the code is the identity of the
  specification, and the code computes the merge of the specification.
\<close>

lemma sameIdentity_nil_flags:
  assumes "Controller a = None" "BlockOwnerDeletion a = None"
    and "Controller b = None" "BlockOwnerDeletion b = None"
  shows "sameIdentity mem a b = (a = b)"
  using assms by (auto simp: sameIdentity_def flag_def intro: OwnerReference.equality)

lemma mergeOwnerReferences_nil_flags:
  assumes "\<forall>r \<in> set oldObj \<union> set newObj. Controller r = None \<and> BlockOwnerDeletion r = None"
  shows "mergeOwnerReferences oldObj newObj = mergeOwnerReferences_spec mem oldObj newObj"
proof -
  have "(d \<notin> set oldObj) = (\<not> list_ex (sameIdentity mem d) oldObj)" if "d \<in> set newObj" for d
    using assms that by (auto simp: list_ex_iff sameIdentity_nil_flags)
  then show ?thesis
    by (simp add: mergeOwnerReferences_eq mergeOwnerReferences_spec_def cong: filter_cong)
qed

text \<open>
  Claim C6. \<^verbatim>\<open>mergeOwnerReferences\<close> should return the observed references followed by
  the desired references whose full identity is not among the observed ones. It does not
  when a flag is set: the desired reference to the owner of the observed reference, equal
  to it in api version, kind, name, uid and in the values of both flags, is appended
  because its flags are other pointers than those of the observed reference. The result
  holds the same owner twice, where the merge of the specification returns the observed
  reference alone.
\<close>

theorem mergeOwnerReferences_appends_same_identity:
  "sameIdentity allTrue desiredRef observedRef
   \<and> mergeOwnerReferences [observedRef] [desiredRef] = [observedRef, desiredRef]
   \<and> mergeOwnerReferences_spec allTrue [observedRef] [desiredRef] = [observedRef]"
proof -
  have s: "sameIdentity allTrue desiredRef observedRef"
    by (simp add: sameIdentity_def flag_def allTrue_def observedRef_def desiredRef_def)
  have n: "desiredRef \<noteq> observedRef"
    by (simp add: observedRef_def desiredRef_def)
  have c: "mergeOwnerReferences [observedRef] [desiredRef] = [observedRef, desiredRef]"
    using n by (simp add: mergeOwnerReferences_def Let_def)
  have p: "mergeOwnerReferences_spec allTrue [observedRef] [desiredRef] = [observedRef]"
    using s by (simp add: mergeOwnerReferences_spec_def)
  from s c p show ?thesis by simp
qed

lemma HasPrefix_empty: "HasPrefix k ''''"
  by (simp add: HasPrefix_def)

lemma mergeMaps_fst: "fst (mergeMaps newObj oldObj) = Some (entries oldObj ++ entries newObj)"
  by (auto simp: mergeMaps_def mergeMapsByPrefix_def Let_def HasPrefix_empty map_add_def
      split: option.splits)

lemma mergeMetadata_fst:
  "fst (mergeMetadata newObj oldObj) =
     newObj\<lparr>ResourceVersion := ResourceVersion oldObj,
            Labels := Some (entries (Labels oldObj) ++ entries (Labels newObj)),
            Annotations := Some (entries (Annotations oldObj) ++ entries (Annotations newObj))\<rparr>"
proof -
  obtain l ol where l: "mergeMaps (Labels newObj) (Labels oldObj) = (l, ol)"
    by (cases "mergeMaps (Labels newObj) (Labels oldObj)")
  obtain a oa where a: "mergeMaps (Annotations newObj) (Annotations oldObj) = (a, oa)"
    by (cases "mergeMaps (Annotations newObj) (Annotations oldObj)")
  from l have "l = Some (entries (Labels oldObj) ++ entries (Labels newObj))"
    using mergeMaps_fst [of "Labels newObj" "Labels oldObj"] by simp
  moreover from a have "a = Some (entries (Annotations oldObj) ++ entries (Annotations newObj))"
    using mergeMaps_fst [of "Annotations newObj" "Annotations oldObj"] by simp
  ultimately show ?thesis
    using l a by (simp add: mergeMetadata_def Let_def)
qed

text \<open>
  Claim C3. \<^verbatim>\<open>mergeMetadata\<close> sets the resource version of the desired metadata to the
  observed one, and its labels to the union of the observed and the desired labels: the
  keys are those of both, a key of the desired labels keeps the desired value, and any other
  key has its observed value. The annotations follow the same rule. The name and the owner
  references stay.
\<close>

theorem mergeMetadata_result:
  assumes "mergeMetadata newObj oldObj = (newObj', oldObj')"
  shows "ResourceVersion newObj' = ResourceVersion oldObj
    \<and> Labels newObj' = Some (entries (Labels oldObj) ++ entries (Labels newObj))
    \<and> Annotations newObj' = Some (entries (Annotations oldObj) ++ entries (Annotations newObj))
    \<and> dom (entries (Labels newObj'))
        = dom (entries (Labels oldObj)) \<union> dom (entries (Labels newObj))
    \<and> (\<forall>k v. entries (Labels newObj) k = Some v \<longrightarrow> entries (Labels newObj') k = Some v)
    \<and> (\<forall>k. entries (Labels newObj) k = None
          \<longrightarrow> entries (Labels newObj') k = entries (Labels oldObj) k)
    \<and> dom (entries (Annotations newObj'))
        = dom (entries (Annotations oldObj)) \<union> dom (entries (Annotations newObj))
    \<and> (\<forall>k v. entries (Annotations newObj) k = Some v
          \<longrightarrow> entries (Annotations newObj') k = Some v)
    \<and> (\<forall>k. entries (Annotations newObj) k = None
          \<longrightarrow> entries (Annotations newObj') k = entries (Annotations oldObj) k)
    \<and> ObjectMeta.Name newObj' = ObjectMeta.Name newObj
    \<and> OwnerReferences newObj' = OwnerReferences newObj"
proof -
  have n: "newObj' = newObj\<lparr>ResourceVersion := ResourceVersion oldObj,
            Labels := Some (entries (Labels oldObj) ++ entries (Labels newObj)),
            Annotations := Some (entries (Annotations oldObj) ++ entries (Annotations newObj))\<rparr>"
    using assms mergeMetadata_fst [of newObj oldObj] by simp
  have e: "entries (Some m) = m" for m by (simp add: entries_def)
  show ?thesis
    unfolding n by (auto simp: e map_add_def dom_def split: option.splits)
qed

theorem mergeMetadata_result_witness:
  "ResourceVersion (fst (mergeMetadata
      \<lparr>ObjectMeta.Name = ''prometheus-operated'', ResourceVersion = '''',
       Labels = Some [''app'' \<mapsto> ''overridden'', ''label'' \<mapsto> ''value''],
       Annotations = None, OwnerReferences = []\<rparr>
      \<lparr>ObjectMeta.Name = ''prometheus-operated'', ResourceVersion = ''42'',
       Labels = Some [''app'' \<mapsto> ''ksm'', ''team'' \<mapsto> ''obs''],
       Annotations = Some [''note'' \<mapsto> ''kept''], OwnerReferences = []\<rparr>)) = ''42''
   \<and> map (entries (Labels (fst (mergeMetadata
      \<lparr>ObjectMeta.Name = ''prometheus-operated'', ResourceVersion = '''',
       Labels = Some [''app'' \<mapsto> ''overridden'', ''label'' \<mapsto> ''value''],
       Annotations = None, OwnerReferences = []\<rparr>
      \<lparr>ObjectMeta.Name = ''prometheus-operated'', ResourceVersion = ''42'',
       Labels = Some [''app'' \<mapsto> ''ksm'', ''team'' \<mapsto> ''obs''],
       Annotations = Some [''note'' \<mapsto> ''kept''], OwnerReferences = []\<rparr>))))
       [''app'', ''team'', ''label'', ''other'']
     = [Some ''overridden'', Some ''obs'', Some ''value'', None]
   \<and> map (entries (Annotations (fst (mergeMetadata
      \<lparr>ObjectMeta.Name = ''prometheus-operated'', ResourceVersion = '''',
       Labels = Some [''app'' \<mapsto> ''overridden'', ''label'' \<mapsto> ''value''],
       Annotations = None, OwnerReferences = []\<rparr>
      \<lparr>ObjectMeta.Name = ''prometheus-operated'', ResourceVersion = ''42'',
       Labels = Some [''app'' \<mapsto> ''ksm'', ''team'' \<mapsto> ''obs''],
       Annotations = Some [''note'' \<mapsto> ''kept''], OwnerReferences = []\<rparr>))))
       [''note'', ''other'']
     = [Some ''kept'', None]"
proof -
  let ?new = "\<lparr>ObjectMeta.Name = ''prometheus-operated'', ResourceVersion = '''',
       Labels = Some [''app'' \<mapsto> ''overridden'', ''label'' \<mapsto> ''value''],
       Annotations = None, OwnerReferences = []\<rparr>"
  let ?old = "\<lparr>ObjectMeta.Name = ''prometheus-operated'', ResourceVersion = ''42'',
       Labels = Some [''app'' \<mapsto> ''ksm'', ''team'' \<mapsto> ''obs''],
       Annotations = Some [''note'' \<mapsto> ''kept''], OwnerReferences = []\<rparr>"
  have p: "mergeMetadata ?new ?old = (fst (mergeMetadata ?new ?old), snd (mergeMetadata ?new ?old))"
    by simp
  show ?thesis
    using mergeMetadata_result [OF p] by (simp add: entries_def)
qed

section \<open>The create-or-update protocol\<close>

lemma OnError_loop_numeral:
  "OnError_loop (numeral k) retriable fn lastErr s =
     (case fn s of
        (None, s1) \<Rightarrow> (None, s1)
      | (Some err, s1) \<Rightarrow>
          if retriable err then OnError_loop (pred_numeral k) retriable fn (Some err) s1
          else (Some err, s1))"
  by (simp add: numeral_eq_Suc)

lemma holding_simps:
  "holding obj (log @ [GetCall name]) = Inr obj"
  "holding obj (log @ [CreateCall new]) = Inr new"
  "holding obj (log @ [UpdateCall new]) = Inr new"
  "holding obj (log @ [c, UpdateCall new]) = Inr new"
  by (simp_all add: holding_def)


subsection \<open>Services\<close>

lemma carried_append:
  assumes "carried sclient name log" "\<forall>w. c \<noteq> UpdateCall w"
  shows "carried sclient name (log @ [c])"
  unfolding carried_def
proof (intro allI impI, elim conjE)
  fix i w
  assume i: "i < length (log @ [c])" and u: "(log @ [c]) ! i = UpdateCall w"
  have "i < length log"
  proof (rule ccontr)
    assume "\<not> i < length log"
    with i have "i = length log" by simp
    with u assms(2) show False by simp
  qed
  then have "log ! i = UpdateCall w" "(log @ [c]) ! (i - 1) = log ! (i - 1)"
    "take i (log @ [c]) = take i log"
    using u by (simp_all add: nth_append less_imp_diff_less)
  with assms(1) \<open>i < length log\<close> show "\<exists>service. 0 < i \<and> (log @ [c]) ! (i - 1) = GetCall name
           \<and> sclient (take i (log @ [c])) = Inr service
           \<and> ClusterIP (Spec w) = ClusterIP (Spec service)
           \<and> ClusterIPs (Spec w) = ClusterIPs (Spec service)
           \<and> IPFamilies (Spec w) = IPFamilies (Spec service)
           \<and> IPFamilyPolicy (Spec w) = IPFamilyPolicy (Spec service)"
    unfolding carried_def by simp
qed

lemma carried_append_Update:
  assumes "carried sclient name log" "sclient (log @ [GetCall name]) = Inr service"
    and "ClusterIP (Spec u) = ClusterIP (Spec service)"
      "ClusterIPs (Spec u) = ClusterIPs (Spec service)"
      "IPFamilies (Spec u) = IPFamilies (Spec service)"
      "IPFamilyPolicy (Spec u) = IPFamilyPolicy (Spec service)"
  shows "carried sclient name (log @ [GetCall name, UpdateCall u])"
  unfolding carried_def
proof (intro allI impI, elim conjE)
  fix i w
  let ?log = "log @ [GetCall name, UpdateCall u]"
  assume i: "i < length ?log" and u: "?log ! i = UpdateCall w"
  consider "i < length log" | "i = length log" | "i = Suc (length log)"
    using i by fastforce
  then show "\<exists>service. 0 < i \<and> ?log ! (i - 1) = GetCall name
           \<and> sclient (take i ?log) = Inr service
           \<and> ClusterIP (Spec w) = ClusterIP (Spec service)
           \<and> ClusterIPs (Spec w) = ClusterIPs (Spec service)
           \<and> IPFamilies (Spec w) = IPFamilies (Spec service)
           \<and> IPFamilyPolicy (Spec w) = IPFamilyPolicy (Spec service)"
  proof cases
    case 1
    then have "log ! i = UpdateCall w" "?log ! (i - 1) = log ! (i - 1)"
      "take i ?log = take i log"
      using u by (simp_all add: nth_append less_imp_diff_less)
    with assms(1) 1 show ?thesis unfolding carried_def by simp
  next
    case 2
    with u show ?thesis by (simp add: nth_append)
  next
    case 3
    then have "w = u" "?log ! (i - 1) = GetCall name" "take i ?log = log @ [GetCall name]"
      using u by (simp_all add: nth_append)
    with assms 3 show ?thesis by simp
  qed
qed

lemma mergeMetadata_Name: "ObjectMeta.Name (fst (mergeMetadata newObj oldObj)) = ObjectMeta.Name newObj"
  by (simp add: mergeMetadata_def Let_def split_def)

lemma CreateOrUpdateService_fn_carried:
  assumes "carried sclient (ObjectMeta.Name (ObjectMeta svc)) log"
    and "CreateOrUpdateService_fn sclient (svc, ret, log) = (e, svc', ret', log')"
  shows "carried sclient (ObjectMeta.Name (ObjectMeta svc')) log'
     \<and> ObjectMeta.Name (ObjectMeta svc') = ObjectMeta.Name (ObjectMeta svc)"
proof -
  let ?n = "ObjectMeta.Name (ObjectMeta svc)"
  have g: "carried sclient ?n (log @ [GetCall ?n])"
    using assms(1) by (rule carried_append) simp
  show ?thesis
  proof (cases "sclient (log @ [GetCall ?n])")
    case (Inl err)
    show ?thesis
    proof (cases "IsNotFound err")
      case False
      with Inl assms(2) g show ?thesis
        by (auto simp: CreateOrUpdateService_fn_def Get_def request_def)
    next
      case True
      have "carried sclient ?n ((log @ [GetCall ?n]) @ [CreateCall svc])"
        using g by (rule carried_append) simp
      with True Inl assms(2) show ?thesis
        by (auto simp: CreateOrUpdateService_fn_def Get_def Create_def request_def
            split: sum.splits)
    qed
  next
    case (Inr service)
    define u where "u = (let svc1 = svc\<lparr>Spec := (Spec svc)\<lparr>IPFamilies := IPFamilies (Spec service)\<rparr>\<rparr>;
              svc2 = svc1\<lparr>Spec := (Spec svc1)\<lparr>IPFamilyPolicy := IPFamilyPolicy (Spec service)\<rparr>\<rparr>;
              svc3 = svc2\<lparr>Spec := (Spec svc2)\<lparr>ClusterIP := ClusterIP (Spec service)\<rparr>\<rparr>;
              svc4 = svc3\<lparr>Spec := (Spec svc3)\<lparr>ClusterIPs := ClusterIPs (Spec service)\<rparr>\<rparr>;
              svc5 = svc4\<lparr>ObjectMeta := (ObjectMeta svc4)\<lparr>OwnerReferences :=
                       mergeOwnerReferences (OwnerReferences (ObjectMeta service))
                         (OwnerReferences (ObjectMeta svc4))\<rparr>\<rparr>
          in svc5\<lparr>ObjectMeta := fst (mergeMetadata (ObjectMeta svc5) (ObjectMeta service))\<rparr>)"
    have f: "ClusterIP (Spec u) = ClusterIP (Spec service)"
      "ClusterIPs (Spec u) = ClusterIPs (Spec service)"
      "IPFamilies (Spec u) = IPFamilies (Spec service)"
      "IPFamilyPolicy (Spec u) = IPFamilyPolicy (Spec service)"
      "ObjectMeta.Name (ObjectMeta u) = ?n"
      by (simp_all add: u_def Let_def mergeMetadata_Name)
    have c: "carried sclient ?n (log @ [GetCall ?n, UpdateCall u])"
      using assms(1) Inr f(1-4) by (rule carried_append_Update)
    have "svc' = u \<and> log' = log @ [GetCall ?n, UpdateCall u]"
      using Inr assms(2)
      by (auto simp: CreateOrUpdateService_fn_def Get_def Update_def request_def u_def
          Let_def split_def split: sum.splits)
    with c f(5) show ?thesis by simp
  qed
qed

lemma OnError_loop_carried:
  assumes "carried sclient (ObjectMeta.Name (ObjectMeta svc)) log"
    and "OnError_loop steps retriable (CreateOrUpdateService_fn sclient) lastErr (svc, ret, log)
           = (e, svc', ret', log')"
  shows "carried sclient (ObjectMeta.Name (ObjectMeta svc)) log'"
  using assms
proof (induction steps arbitrary: svc ret log lastErr)
  case 0
  then show ?case by simp
next
  case (Suc steps)
  obtain e1 svc1 ret1 log1 where
    f: "CreateOrUpdateService_fn sclient (svc, ret, log) = (e1, svc1, ret1, log1)"
    by (cases "CreateOrUpdateService_fn sclient (svc, ret, log)") auto
  from CreateOrUpdateService_fn_carried [OF Suc.prems(1) f]
  have c1: "carried sclient (ObjectMeta.Name (ObjectMeta svc1)) log1"
    and n1: "ObjectMeta.Name (ObjectMeta svc1) = ObjectMeta.Name (ObjectMeta svc)" by auto
  show ?case
  proof (cases e1)
    case None
    with f Suc.prems(2) c1 n1 show ?thesis by auto
  next
    case (Some err)
    show ?thesis
    proof (cases "retriable err")
      case True
      with Some f Suc.prems(2) have
        "OnError_loop steps retriable (CreateOrUpdateService_fn sclient) (Some err)
           (svc1, ret1, log1) = (e, svc', ret', log')" by simp
      from Suc.IH [OF c1 this] n1 show ?thesis by simp
    next
      case False
      with Some f Suc.prems(2) c1 n1 show ?thesis by auto
    qed
  qed
qed

lemma CreateOrUpdateService_updates_carried:
  assumes "CreateOrUpdateService sclient svc [] = (r, svc', log)"
    and "i < length log" and "log ! i = UpdateCall w"
  shows "\<exists>service. 0 < i \<and> log ! (i - 1) = GetCall (ObjectMeta.Name (ObjectMeta svc))
           \<and> sclient (take i log) = Inr service
           \<and> ClusterIP (Spec w) = ClusterIP (Spec service)
           \<and> ClusterIPs (Spec w) = ClusterIPs (Spec service)
           \<and> IPFamilies (Spec w) = IPFamilies (Spec service)
           \<and> IPFamilyPolicy (Spec w) = IPFamilyPolicy (Spec service)"
proof -
  have c0: "carried sclient (ObjectMeta.Name (ObjectMeta svc)) []"
    by (simp add: carried_def)
  obtain e ret where
    "OnError_loop 5 IsConflict (CreateOrUpdateService_fn sclient) None (svc, None, [])
       = (e, svc', ret, log)"
    using assms(1)
    by (auto simp: CreateOrUpdateService_def RetryOnConflict_def OnError_def DefaultRetry_def
        split: prod.splits)
  from OnError_loop_carried [OF c0 this] assms(2,3) show ?thesis
    unfolding carried_def by blast
qed

lemma CreateOrUpdateService_fn_exists:
  assumes "sclient (log @ [GetCall (ObjectMeta.Name (ObjectMeta svc))]) = Inr service"
  shows "\<exists>u e ret'. CreateOrUpdateService_fn sclient (svc, ret, log)
             = (e, u, ret', log @ [GetCall (ObjectMeta.Name (ObjectMeta svc)), UpdateCall u])
           \<and> e = outcome (sclient (log @ [GetCall (ObjectMeta.Name (ObjectMeta svc)), UpdateCall u]))
           \<and> ClusterIP (Spec u) = ClusterIP (Spec service)
           \<and> ClusterIPs (Spec u) = ClusterIPs (Spec service)
           \<and> IPFamilies (Spec u) = IPFamilies (Spec service)
           \<and> IPFamilyPolicy (Spec u) = IPFamilyPolicy (Spec service)"
  using assms
  by (auto simp: CreateOrUpdateService_fn_def Get_def Update_def request_def outcome_def
      Let_def split_def split: sum.splits)

text \<open>
  Claim C4. When the read of \<^verbatim>\<open>CreateOrUpdateService\<close> returns a service, the attempt
  sends one update, and the service it writes has the \<^verbatim>\<open>ClusterIP\<close>, \<^verbatim>\<open>ClusterIPs\<close>,
  \<^verbatim>\<open>IPFamilies\<close> and \<^verbatim>\<open>IPFamilyPolicy\<close> of the service that was read, whatever the
  desired service held in these fields. Over the whole call, with its retries on conflict:
  every update in the log of requests comes right after a read of the name of the service,
  the server answered that read with a service, and the update carries these four fields
  of that answer.
\<close>

theorem CreateOrUpdateService_immutable_fields:
  "(sclient (log0 @ [GetCall (ObjectMeta.Name (ObjectMeta svc))]) = Inr service \<longrightarrow>
      (\<exists>u e ret'. CreateOrUpdateService_fn sclient (svc, ret, log0)
             = (e, u, ret', log0 @ [GetCall (ObjectMeta.Name (ObjectMeta svc)), UpdateCall u])
           \<and> ClusterIP (Spec u) = ClusterIP (Spec service)
           \<and> ClusterIPs (Spec u) = ClusterIPs (Spec service)
           \<and> IPFamilies (Spec u) = IPFamilies (Spec service)
           \<and> IPFamilyPolicy (Spec u) = IPFamilyPolicy (Spec service)))
   \<and> (CreateOrUpdateService sclient svc [] = (r, svc', log) \<and> i < length log
        \<and> log ! i = UpdateCall w \<longrightarrow>
      (\<exists>observed. 0 < i \<and> log ! (i - 1) = GetCall (ObjectMeta.Name (ObjectMeta svc))
           \<and> sclient (take i log) = Inr observed
           \<and> ClusterIP (Spec w) = ClusterIP (Spec observed)
           \<and> ClusterIPs (Spec w) = ClusterIPs (Spec observed)
           \<and> IPFamilies (Spec w) = IPFamilies (Spec observed)
           \<and> IPFamilyPolicy (Spec w) = IPFamilyPolicy (Spec observed)))"
proof (intro conjI impI)
  assume "sclient (log0 @ [GetCall (ObjectMeta.Name (ObjectMeta svc))]) = Inr service"
  from CreateOrUpdateService_fn_exists [of sclient log0 svc service ret] this
  show "\<exists>u e ret'. CreateOrUpdateService_fn sclient (svc, ret, log0)
             = (e, u, ret', log0 @ [GetCall (ObjectMeta.Name (ObjectMeta svc)), UpdateCall u])
           \<and> ClusterIP (Spec u) = ClusterIP (Spec service)
           \<and> ClusterIPs (Spec u) = ClusterIPs (Spec service)
           \<and> IPFamilies (Spec u) = IPFamilies (Spec service)
           \<and> IPFamilyPolicy (Spec u) = IPFamilyPolicy (Spec service)"
    by blast
next
  assume "CreateOrUpdateService sclient svc [] = (r, svc', log) \<and> i < length log
        \<and> log ! i = UpdateCall w"
  then show "\<exists>observed. 0 < i \<and> log ! (i - 1) = GetCall (ObjectMeta.Name (ObjectMeta svc))
           \<and> sclient (take i log) = Inr observed
           \<and> ClusterIP (Spec w) = ClusterIP (Spec observed)
           \<and> ClusterIPs (Spec w) = ClusterIPs (Spec observed)
           \<and> IPFamilies (Spec w) = IPFamilies (Spec observed)
           \<and> IPFamilyPolicy (Spec w) = IPFamilyPolicy (Spec observed)"
    using CreateOrUpdateService_updates_carried [of sclient svc r svc' log i w] by blast
qed

text \<open>
  The test of the repository: the service in the cluster has an address, two addresses,
  a family and a policy; the desired service sets none of them; the update carries all.
\<close>

lemma CreateOrUpdateService_example:
  "\<exists>w. snd (CreateOrUpdateService (holding observedService) desiredService [])
         = (w, [GetCall ''prometheus-operated-test'', UpdateCall w])
      \<and> Spec w = Spec observedService"
proof -
  have n: "ObjectMeta.Name (ObjectMeta desiredService) = ''prometheus-operated-test''"
    by (simp add: desiredService_def)
  have "holding observedService ([] @ [GetCall (ObjectMeta.Name (ObjectMeta desiredService))])
          = Inr observedService"
    by (rule holding_simps)
  from CreateOrUpdateService_fn_exists [where sclient = "holding observedService"
      and log = "[]" and svc = desiredService and service = observedService and ret = None,
      OF this]
  obtain u e ret' where
    f: "CreateOrUpdateService_fn (holding observedService) (desiredService, None, [])
          = (e, u, ret', [GetCall ''prometheus-operated-test'', UpdateCall u])"
    and e: "e = outcome (holding observedService
                 ([] @ [GetCall (ObjectMeta.Name (ObjectMeta desiredService)), UpdateCall u]))"
    and s: "ClusterIP (Spec u) = ClusterIP (Spec observedService)"
      "ClusterIPs (Spec u) = ClusterIPs (Spec observedService)"
      "IPFamilies (Spec u) = IPFamilies (Spec observedService)"
      "IPFamilyPolicy (Spec u) = IPFamilyPolicy (Spec observedService)"
    unfolding n by auto
  have "e = None" unfolding e holding_simps by (simp add: outcome_def)
  with f have "snd (CreateOrUpdateService (holding observedService) desiredService [])
         = (u, [GetCall ''prometheus-operated-test'', UpdateCall u])"
    by (simp add: CreateOrUpdateService_def RetryOnConflict_def OnError_def DefaultRetry_def
        OnError_loop_numeral)
  moreover have "Spec u = Spec observedService"
    using s by (intro ServiceSpec.equality) simp_all
  ultimately show ?thesis by blast
qed

theorem CreateOrUpdateService_immutable_fields_witness:
  "\<exists>w. snd (CreateOrUpdateService (holding observedService) desiredService [])
         = (w, [GetCall ''prometheus-operated-test'', UpdateCall w])
      \<and> ClusterIP (Spec w) = ''127.0.0.1''
      \<and> ClusterIPs (Spec w) = [''127.0.0.1'', ''192.168.0.159'']
      \<and> IPFamilies (Spec w) = [''IPv6'']
      \<and> IPFamilyPolicy (Spec w) = Some ''RequireDualStack''"
proof -
  from CreateOrUpdateService_example obtain w where
    w: "snd (CreateOrUpdateService (holding observedService) desiredService [])
         = (w, [GetCall ''prometheus-operated-test'', UpdateCall w])" by blast
  let ?log = "[GetCall ''prometheus-operated-test'', UpdateCall w]"
  let ?r = "fst (CreateOrUpdateService (holding observedService) desiredService [])"
  have "CreateOrUpdateService (holding observedService) desiredService [] = (?r, w, ?log)"
    using w by (metis prod.collapse)
  then have h: "CreateOrUpdateService (holding observedService) desiredService [] = (?r, w, ?log)
      \<and> 1 < length ?log \<and> ?log ! 1 = UpdateCall w"
    by simp
  have t: "holding observedService (take 1 ?log) = Inr observedService"
    by (simp add: holding_def)
  from CreateOrUpdateService_immutable_fields [where sclient = "holding observedService"
      and svc = desiredService and svc' = w and log = ?log and i = 1 and w = w and r = ?r,
      THEN conjunct2, rule_format, OF h]
  obtain observed where
    o: "holding observedService (take 1 ?log) = Inr observed"
    and f: "ClusterIP (Spec w) = ClusterIP (Spec observed)"
      "ClusterIPs (Spec w) = ClusterIPs (Spec observed)"
      "IPFamilies (Spec w) = IPFamilies (Spec observed)"
      "IPFamilyPolicy (Spec w) = IPFamilyPolicy (Spec observed)"
    by blast
  from o t have "observed = observedService" by simp
  with f have "ClusterIP (Spec w) = ''127.0.0.1''"
    "ClusterIPs (Spec w) = [''127.0.0.1'', ''192.168.0.159'']"
    "IPFamilies (Spec w) = [''IPv6'']"
    "IPFamilyPolicy (Spec w) = Some ''RequireDualStack''"
    by (simp_all add: observedService_def)
  with w show ?thesis by blast
qed

subsection \<open>Endpoint slices\<close>

lemma CreateOrUpdateEndpointSlice_fn_create:
  assumes "ObjectMeta.Name (ObjectMeta eps) = ''''"
  shows "CreateOrUpdateEndpointSlice_fn c (eps, log)
           = (outcome (c (log @ [CreateCall eps])), eps, log @ [CreateCall eps])"
  using assms
  by (auto simp: CreateOrUpdateEndpointSlice_fn_def Create_def request_def outcome_def
      split: sum.splits)

lemma OnError_loop_create:
  assumes "ObjectMeta.Name (ObjectMeta eps) = ''''"
  shows "\<exists>n. n \<le> steps \<and> (0 < steps \<longrightarrow> 0 < n)
     \<and> OnError_loop steps IsConflict (CreateOrUpdateEndpointSlice_fn c) lastErr (eps, log)
         = (if n = 0 then lastErr else outcome (c (log @ replicate n (CreateCall eps))),
            eps, log @ replicate n (CreateCall eps))
     \<and> (\<forall>k. 0 < k \<and> k < n \<longrightarrow>
           (\<exists>err. c (log @ replicate k (CreateCall eps)) = Inl err \<and> IsConflict err))"
proof (induction steps arbitrary: lastErr log)
  case 0
  show ?case by (rule exI [of _ 0]) simp
next
  case (Suc steps)
  let ?C = "CreateCall eps"
  note f = CreateOrUpdateEndpointSlice_fn_create [OF assms, of c log]
  show ?case
  proof (cases "c (log @ [?C])")
    case (Inr obj)
    show ?thesis
      by (rule exI [of _ 1]) (use f Inr in \<open>simp add: outcome_def\<close>)
  next
    case (Inl err)
    show ?thesis
    proof (cases "IsConflict err")
      case False
      show ?thesis
        by (rule exI [of _ 1]) (use f Inl False in \<open>simp add: outcome_def\<close>)
    next
      case True
      from Suc.IH [of "Some err" "log @ [?C]"] obtain n where
        n: "n \<le> steps"
        and r: "OnError_loop steps IsConflict (CreateOrUpdateEndpointSlice_fn c) (Some err)
                   (eps, log @ [?C])
                 = (if n = 0 then Some err
                    else outcome (c ((log @ [?C]) @ replicate n ?C)),
                    eps, (log @ [?C]) @ replicate n ?C)"
        and k: "\<forall>k. 0 < k \<and> k < n \<longrightarrow>
           (\<exists>err. c ((log @ [?C]) @ replicate k ?C) = Inl err \<and> IsConflict err)"
        by blast
      have a: "(log @ [?C]) @ replicate m ?C = log @ replicate (Suc m) ?C" for m by simp
      have "OnError_loop (Suc steps) IsConflict (CreateOrUpdateEndpointSlice_fn c) lastErr (eps, log)
          = (outcome (c (log @ replicate (Suc n) ?C)), eps, log @ replicate (Suc n) ?C)"
      proof (cases "n = 0")
        case True
        with f Inl \<open>IsConflict err\<close> r show ?thesis by (simp add: outcome_def)
      next
        case False
        with f Inl \<open>IsConflict err\<close> r a show ?thesis by (simp add: outcome_def)
      qed
      moreover have "\<forall>j. 0 < j \<and> j < Suc n \<longrightarrow>
           (\<exists>err. c (log @ replicate j ?C) = Inl err \<and> IsConflict err)"
      proof (intro allI impI)
        fix j assume j: "0 < j \<and> j < Suc n"
        show "\<exists>err. c (log @ replicate j ?C) = Inl err \<and> IsConflict err"
        proof (cases "j = 1")
          case True
          with Inl \<open>IsConflict err\<close> show ?thesis by simp
        next
          case False
          with j obtain j' where j': "j = Suc j'" "0 < j'" "j' < n" by (cases j) auto
          with k a [of j'] show ?thesis by simp
        qed
      qed
      ultimately show ?thesis
        using n by (intro exI [of _ "Suc n"]) simp
    qed
  qed
qed

text \<open>
  Claim C10. For an endpoint slice whose name is empty, an attempt of
  \<^verbatim>\<open>CreateOrUpdateEndpointSlice\<close> sends one request, the creation of the slice as it was
  given: no read, and no merge of metadata. Over the whole call the requests are \<open>n\<close>
  such creations, \<open>n\<close> between 1 and 5, each but the last answered with a conflict; the
  slice of the caller is unchanged and the error returned is the outcome of the last
  creation.
\<close>

theorem CreateOrUpdateEndpointSlice_empty_name:
  assumes "ObjectMeta.Name (ObjectMeta eps) = ''''"
  shows "CreateOrUpdateEndpointSlice_fn c (eps, log)
           = (outcome (c (log @ [CreateCall eps])), eps, log @ [CreateCall eps])
    \<and> (\<exists>n. 0 < n \<and> n \<le> 5
         \<and> CreateOrUpdateEndpointSlice c eps log
             = (outcome (c (log @ replicate n (CreateCall eps))),
                eps, log @ replicate n (CreateCall eps))
         \<and> (\<forall>k. 0 < k \<and> k < n \<longrightarrow>
               (\<exists>err. c (log @ replicate k (CreateCall eps)) = Inl err \<and> IsConflict err)))"
proof -
  from OnError_loop_create [OF assms, of 5 c None log] obtain n where
    "n \<le> 5" "0 < n"
    "OnError_loop 5 IsConflict (CreateOrUpdateEndpointSlice_fn c) None (eps, log)
         = (outcome (c (log @ replicate n (CreateCall eps))),
            eps, log @ replicate n (CreateCall eps))"
    "\<forall>k. 0 < k \<and> k < n \<longrightarrow>
           (\<exists>err. c (log @ replicate k (CreateCall eps)) = Inl err \<and> IsConflict err)"
    by auto
  then show ?thesis
    using CreateOrUpdateEndpointSlice_fn_create [OF assms, of c log]
    by (auto simp: CreateOrUpdateEndpointSlice_def RetryOnConflict_def OnError_def
        DefaultRetry_def)
qed

lemma IsConflict_409:
  "IsConflict (StatusError \<lparr>Code = 409, Reason = StatusReasonConflict, Details = None\<rparr>)"
  by (simp add: IsConflict_def)

theorem CreateOrUpdateEndpointSlice_empty_name_witness:
  "ObjectMeta.Name (ObjectMeta unnamedSlice) = ''''
   \<and> CreateOrUpdateEndpointSlice (holding unnamedSlice) unnamedSlice []
       = (None, unnamedSlice, [CreateCall unnamedSlice])
   \<and> CreateOrUpdateEndpointSlice (conflictOnce unnamedSlice) unnamedSlice []
       = (None, unnamedSlice, [CreateCall unnamedSlice, CreateCall unnamedSlice])"
proof -
  have n: "ObjectMeta.Name (ObjectMeta unnamedSlice) = ''''"
    by (simp add: unnamedSlice_def)
  have 1: "CreateOrUpdateEndpointSlice_fn (holding unnamedSlice) (unnamedSlice, [])
             = (None, unnamedSlice, [CreateCall unnamedSlice])"
    using CreateOrUpdateEndpointSlice_empty_name [OF n, of "holding unnamedSlice" "[]"]
    by (simp add: holding_def outcome_def)
  have 2: "CreateOrUpdateEndpointSlice_fn (conflictOnce unnamedSlice) (unnamedSlice, [])
             = (Some (StatusError \<lparr>Code = 409, Reason = StatusReasonConflict, Details = None\<rparr>),
                unnamedSlice, [CreateCall unnamedSlice])"
    using CreateOrUpdateEndpointSlice_empty_name [OF n, of "conflictOnce unnamedSlice" "[]"]
    by (simp add: conflictOnce_def outcome_def)
  have 3: "CreateOrUpdateEndpointSlice_fn (conflictOnce unnamedSlice)
              (unnamedSlice, [CreateCall unnamedSlice])
             = (None, unnamedSlice, [CreateCall unnamedSlice, CreateCall unnamedSlice])"
    using CreateOrUpdateEndpointSlice_empty_name [OF n, of "conflictOnce unnamedSlice"
        "[CreateCall unnamedSlice]"]
    by (simp add: conflictOnce_def holding_def outcome_def)
  show ?thesis
    using n 1 2 3 IsConflict_409
    by (simp add: CreateOrUpdateEndpointSlice_def RetryOnConflict_def OnError_def
        DefaultRetry_def OnError_loop_numeral)
qed


subsection \<open>Stateful sets\<close>

lemma entries_simps: "entries None = Map.empty" "entries (Some m) = m"
  by (simp_all add: entries_def)

lemma mergeKubectlAnnotations_snd:
  "Annotations (snd (mergeKubectlAnnotations from to)) =
     (case Annotations to of
        None \<Rightarrow> None
      | Some m \<Rightarrow>
          Some (\<lambda>k. if HasPrefix k ''kubectl.kubernetes.io/''
                     then (case entries (Annotations from) k of Some v \<Rightarrow> Some v | None \<Rightarrow> m k)
                     else m k))"
  by (cases "Annotations to")
     (simp_all add: mergeKubectlAnnotations_def mergeMapsByPrefix_def Let_def entries_simps)

text \<open>One attempt of the update, when the stateful set exists.\<close>

lemma updateStatefulSet_fn_exists:
  assumes "sstClient (log @ [GetCall (ObjectMeta.Name (ObjectMeta sset))]) = Inr existingSset"
  shows "\<exists>u. updateStatefulSet_fn sstClient (sset, log)
             = (outcome (sstClient
                   (log @ [GetCall (ObjectMeta.Name (ObjectMeta sset)), UpdateCall u])),
                u, log @ [GetCall (ObjectMeta.Name (ObjectMeta sset)), UpdateCall u])
           \<and> ObjectMeta.Name (ObjectMeta u) = ObjectMeta.Name (ObjectMeta sset)
           \<and> Annotations (ObjectMeta (Template (Spec u))) =
               (case Annotations (ObjectMeta (Template (Spec sset))) of
                  None \<Rightarrow> None
                | Some m \<Rightarrow>
                    Some (\<lambda>k. if HasPrefix k ''kubectl.kubernetes.io/''
                               then (case entries (Annotations (ObjectMeta (Template (Spec existingSset)))) k of
                                       Some v \<Rightarrow> Some v | None \<Rightarrow> m k)
                               else m k))"
proof -
  define u where "u = (let sset1 = sset\<lparr>ObjectMeta := fst (mergeMetadata (ObjectMeta sset) (ObjectMeta existingSset))\<rparr>
     in sset1\<lparr>Spec := (Spec sset1)\<lparr>Template :=
                        (Template (Spec sset1))\<lparr>ObjectMeta :=
        snd (mergeKubectlAnnotations (ObjectMeta (Template (Spec existingSset)))
                   (ObjectMeta (Template (Spec sset1))))\<rparr>\<rparr>\<rparr>)"
  have "updateStatefulSet_fn sstClient (sset, log)
             = (outcome (sstClient
                   (log @ [GetCall (ObjectMeta.Name (ObjectMeta sset)), UpdateCall u])),
                u, log @ [GetCall (ObjectMeta.Name (ObjectMeta sset)), UpdateCall u])"
    using assms
    by (auto simp: updateStatefulSet_fn_def Get_def Update_def request_def outcome_def
        u_def Let_def split_def split: sum.splits)
  moreover have "ObjectMeta.Name (ObjectMeta u) = ObjectMeta.Name (ObjectMeta sset)"
    by (simp add: u_def Let_def mergeMetadata_Name)
  moreover have "Annotations (ObjectMeta (Template (Spec u))) =
               (case Annotations (ObjectMeta (Template (Spec sset))) of
                  None \<Rightarrow> None
                | Some m \<Rightarrow>
                    Some (\<lambda>k. if HasPrefix k ''kubectl.kubernetes.io/''
                               then (case entries (Annotations (ObjectMeta (Template (Spec existingSset)))) k of
                                       Some v \<Rightarrow> Some v | None \<Rightarrow> m k)
                               else m k))"
    by (simp add: u_def Let_def mergeKubectlAnnotations_snd)
  ultimately show ?thesis by blast
qed

text \<open>
  Where the desired pod template has a map of annotations, the annotations of the existing
  template whose key has the prefix are written with the existing value.
\<close>

lemma updateStatefulSet_fn_kubectl:
  assumes "sstClient (log @ [GetCall (ObjectMeta.Name (ObjectMeta sset))]) = Inr existingSset"
    and "Annotations (ObjectMeta (Template (Spec sset))) = Some m"
    and "updateStatefulSet_fn sstClient (sset, log) = (e, u, log')"
    and "HasPrefix k ''kubectl.kubernetes.io/''"
    and "entries (Annotations (ObjectMeta (Template (Spec existingSset)))) k = Some v"
  shows "log' = log @ [GetCall (ObjectMeta.Name (ObjectMeta sset)), UpdateCall u]
     \<and> entries (Annotations (ObjectMeta (Template (Spec u)))) k = Some v"
  using updateStatefulSet_fn_exists [of sstClient log sset existingSset] assms
  by (auto simp: entries_simps)

lemma updateStatefulSet_holding:
  "\<exists>w. updateStatefulSet (holding restartedSset) (desiredSset a) []
          = (None, w, [GetCall ''prometheus'', UpdateCall w])
      \<and> Annotations (ObjectMeta (Template (Spec w))) =
               (case a of
                  None \<Rightarrow> None
                | Some m \<Rightarrow>
                    Some (\<lambda>k. if HasPrefix k ''kubectl.kubernetes.io/''
                               then (case entries (Annotations (ObjectMeta (Template (Spec restartedSset)))) k of
                                       Some v \<Rightarrow> Some v | None \<Rightarrow> m k)
                               else m k))"
proof -
  have n: "ObjectMeta.Name (ObjectMeta (desiredSset a)) = ''prometheus''"
    "Annotations (ObjectMeta (Template (Spec (desiredSset a)))) = a"
    by (simp_all add: desiredSset_def)
  have "holding restartedSset ([] @ [GetCall (ObjectMeta.Name (ObjectMeta (desiredSset a)))])
          = Inr restartedSset"
    by (rule holding_simps)
  from updateStatefulSet_fn_exists [of "holding restartedSset" "[]" "desiredSset a" restartedSset]
    this
  obtain u where
    f: "updateStatefulSet_fn (holding restartedSset) (desiredSset a, [])
          = (outcome (holding restartedSset ([] @ [GetCall ''prometheus'', UpdateCall u])),
             u, [GetCall ''prometheus'', UpdateCall u])"
    and t: "Annotations (ObjectMeta (Template (Spec u))) =
               (case a of
                  None \<Rightarrow> None
                | Some m \<Rightarrow>
                    Some (\<lambda>k. if HasPrefix k ''kubectl.kubernetes.io/''
                               then (case entries (Annotations (ObjectMeta (Template (Spec restartedSset)))) k of
                                       Some v \<Rightarrow> Some v | None \<Rightarrow> m k)
                               else m k))"
    unfolding n by auto
  have "outcome (holding restartedSset ([] @ [GetCall ''prometheus'', UpdateCall u])) = None"
    unfolding holding_simps by (simp add: outcome_def)
  with f have "updateStatefulSet (holding restartedSset) (desiredSset a) []
         = (None, u, [GetCall ''prometheus'', UpdateCall u])"
    by (simp add: updateStatefulSet_def RetryOnConflict_def OnError_def DefaultRetry_def
        OnError_loop_numeral)
  with t show ?thesis by blast
qed

lemma restartedAt_prefix: "HasPrefix ''kubectl.kubernetes.io/restartedAt'' ''kubectl.kubernetes.io/''"
  by (simp add: HasPrefix_def)

text \<open>The scenario of the test suite: the marker of yesterday wins over the one of now.\<close>

lemma updateStatefulSet_restartedAt:
  "\<exists>w. updateStatefulSet (holding restartedSset)
           (desiredSset (Some [''kubectl.kubernetes.io/restartedAt'' \<mapsto> ''now''])) []
          = (None, w, [GetCall ''prometheus'', UpdateCall w])
      \<and> entries (Annotations (ObjectMeta (Template (Spec w))))
           ''kubectl.kubernetes.io/restartedAt'' = Some ''yesterday''"
  using updateStatefulSet_holding [of "Some [''kubectl.kubernetes.io/restartedAt'' \<mapsto> ''now'']"]
  by (auto simp: entries_simps restartedAt_prefix restartedSset_def)

text \<open>
  Claim C9 says that every annotation of the existing pod template whose key has the
  prefix \<^verbatim>\<open>kubectl.kubernetes.io/\<close> is written with the existing value, for every
  existing and every desired object. \<open>updateStatefulSet_fn_kubectl\<close> shows it where the
  desired pod template has a map of annotations, and \<open>updateStatefulSet_restartedAt\<close> is
  the scenario of the test suite. The code misses the case of a desired pod template
  without annotations: \<^verbatim>\<open>mergeMapsByPrefix\<close> then fills a map of its own, which
  \<^verbatim>\<open>mergeKubectlAnnotations\<close> stores in the existing object, and the stateful set that is
  written has no annotation at all. The theorem runs the update there: the existing
  template holds the restart marker of yesterday, the desired template has a \<^verbatim>\<open>nil\<close> map,
  and the object written has a \<^verbatim>\<open>nil\<close> map. (\<^verbatim>\<open>UpdateDaemonSet\<close> is the same code on
  daemon sets.)
\<close>

theorem updateStatefulSet_nil_template_annotations:
  "\<exists>w. updateStatefulSet (holding restartedSset) (desiredSset None) []
          = (None, w, [GetCall ''prometheus'', UpdateCall w])
      \<and> entries (Annotations (ObjectMeta (Template (Spec restartedSset))))
           ''kubectl.kubernetes.io/restartedAt'' = Some ''yesterday''
      \<and> Annotations (ObjectMeta (Template (Spec w))) = None
      \<and> entries (Annotations (ObjectMeta (Template (Spec w))))
           ''kubectl.kubernetes.io/restartedAt'' = None"
  using updateStatefulSet_holding [of None]
  by (auto simp: entries_simps restartedSset_def)

lemma ForceUpdateStatefulSet_updated:
  assumes "updateStatefulSet ssetClient sset log = (None, sset1, log1)"
  shows "ForceUpdateStatefulSet ssetClient sset onDeleteFunc c log = Inr (None, sset1, c, log1)"
  using assms by (simp add: ForceUpdateStatefulSet_def)

lemma ForceUpdateStatefulSet_invalid:
  assumes "updateStatefulSet ssetClient sset log = (Some (StatusError sErr), sset1, log1)"
    and "Code sErr = 422" and "Reason sErr = StatusReasonInvalid"
    and "Details sErr = Some details"
  shows "ForceUpdateStatefulSet ssetClient sset onDeleteFunc c log =
     Inr (outcome (ssetClient (log1 @
            [DeleteCall (ObjectMeta.Name (ObjectMeta sset1))
               \<lparr>PropagationPolicy = Some DeletePropagationForeground\<rparr>])),
          sset1,
          (case onDeleteFunc of
             None \<Rightarrow> c
           | Some f \<Rightarrow> f (Join (map Message (Causes details)) '', '') c),
          log1 @ [DeleteCall (ObjectMeta.Name (ObjectMeta sset1))
                    \<lparr>PropagationPolicy = Some DeletePropagationForeground\<rparr>])"
  using assms
  by (simp add: ForceUpdateStatefulSet_def Delete_def request_def outcome_def Let_def
      split: sum.splits)

lemma ForceUpdateStatefulSet_other:
  assumes "updateStatefulSet ssetClient sset log = (Some err, sset1, log1)"
    and "\<nexists>sErr. err = StatusError sErr \<and> Code sErr = 422 \<and> Reason sErr = StatusReasonInvalid"
  shows "ForceUpdateStatefulSet ssetClient sset onDeleteFunc c log =
     Inr (Some (Wrapped ''failed to update StatefulSet: '' err), sset1, c, log1)"
  using assms
  by (cases err) (auto simp: ForceUpdateStatefulSet_def)

lemma ForceUpdateStatefulSet_nil_details:
  assumes "updateStatefulSet ssetClient sset log = (Some (StatusError sErr), sset1, log1)"
    and "Code sErr = 422" and "Reason sErr = StatusReasonInvalid"
    and "Details sErr = None"
  shows "ForceUpdateStatefulSet ssetClient sset onDeleteFunc c log = Inl NilPointerDereference"
  using assms by (simp add: ForceUpdateStatefulSet_def)

lemma rejecting_simps:
  "rejecting st obj (log @ [GetCall name]) = Inr obj"
  "rejecting st obj (log @ [c, UpdateCall new]) = Inl (StatusError st)"
  "rejecting st obj (log @ [DeleteCall name opts]) = Inr obj"
  by (simp_all add: rejecting_def)

lemma updateStatefulSet_rejecting:
  assumes "\<not> IsConflict (StatusError st)"
  shows "\<exists>w. updateStatefulSet (rejecting st restartedSset) (desiredSset a) []
          = (Some (StatusError st), w, [GetCall ''prometheus'', UpdateCall w])
       \<and> ObjectMeta.Name (ObjectMeta w) = ''prometheus''"
proof -
  have n: "ObjectMeta.Name (ObjectMeta (desiredSset a)) = ''prometheus''"
    by (simp add: desiredSset_def)
  have "rejecting st restartedSset ([] @ [GetCall (ObjectMeta.Name (ObjectMeta (desiredSset a)))])
          = Inr restartedSset"
    by (rule rejecting_simps)
  from updateStatefulSet_fn_exists [of "rejecting st restartedSset" "[]" "desiredSset a" restartedSset]
    this
  obtain u where
    f: "updateStatefulSet_fn (rejecting st restartedSset) (desiredSset a, [])
          = (outcome (rejecting st restartedSset ([] @ [GetCall ''prometheus'', UpdateCall u])),
             u, [GetCall ''prometheus'', UpdateCall u])"
    and m: "ObjectMeta.Name (ObjectMeta u) = ''prometheus''"
    unfolding n by auto
  have "outcome (rejecting st restartedSset ([] @ [GetCall ''prometheus'', UpdateCall u]))
          = Some (StatusError st)"
    unfolding rejecting_simps by (simp add: outcome_def)
  with f assms have "updateStatefulSet (rejecting st restartedSset) (desiredSset a) []
         = (Some (StatusError st), u, [GetCall ''prometheus'', UpdateCall u])"
    by (simp add: updateStatefulSet_def RetryOnConflict_def OnError_def DefaultRetry_def
        OnError_loop_numeral)
  with m show ?thesis by blast
qed

lemma not_IsConflict_invalid:
  "\<not> IsConflict (StatusError \<lparr>Code = 422, Reason = StatusReasonInvalid, Details = d\<rparr>)"
  by (simp add: IsConflict_def knownReason_def)

text \<open>
  Claim C8 says what \<^verbatim>\<open>ForceUpdateStatefulSet\<close> does with the error of the update.
  \<open>ForceUpdateStatefulSet_invalid\<close> shows the first half where the status has details: the
  messages of the causes are joined with a comma and a space, the callback (when there is
  one) is called with the joined text, the stateful set is deleted with the foreground
  policy and the outcome of the deletion is returned. \<open>ForceUpdateStatefulSet_other\<close> shows
  the second half: any other error is returned wrapped in
  \<^verbatim>\<open>failed to update StatefulSet: \<close> and no request is added to the log. The code misses
  the case of a status with code 422 and reason \<^verbatim>\<open>Invalid\<close> whose \<^verbatim>\<open>Details\<close> is
  \<^verbatim>\<open>nil\<close> (the field is an optional pointer): \<^verbatim>\<open>sErr.ErrStatus.Details.Causes\<close> then
  dereferences \<^verbatim>\<open>nil\<close>. The theorem runs the function there: it panics, before the
  callback and before any deletion.
\<close>

theorem ForceUpdateStatefulSet_nil_details_panics:
  "ForceUpdateStatefulSet
     (rejecting \<lparr>Code = 422, Reason = StatusReasonInvalid, Details = None\<rparr> restartedSset)
     (desiredSset None) (Some (\<lambda>msg c. c @ [msg])) [] []
   = Inl NilPointerDereference"
proof -
  let ?st = "\<lparr>Code = 422, Reason = StatusReasonInvalid, Details = None\<rparr>"
  from updateStatefulSet_rejecting [OF not_IsConflict_invalid, of None None] obtain w where
    "updateStatefulSet (rejecting ?st restartedSset) (desiredSset None) []
          = (Some (StatusError ?st), w, [GetCall ''prometheus'', UpdateCall w])"
    by blast
  then show ?thesis
    by (rule ForceUpdateStatefulSet_nil_details) simp_all
qed

text \<open>So at this input the function returns nothing: no error and no outcome of a deletion.\<close>

theorem ForceUpdateStatefulSet_nil_details_panics_witness:
  "\<nexists>r. ForceUpdateStatefulSet
     (rejecting \<lparr>Code = 422, Reason = StatusReasonInvalid, Details = None\<rparr> restartedSset)
     (desiredSset None) (Some (\<lambda>msg c. c @ [msg])) [] []
   = Inr r"
  using ForceUpdateStatefulSet_nil_details_panics by simp

lemma ForceUpdateStatefulSet_example:
  "\<exists>w. ForceUpdateStatefulSet
     (rejecting \<lparr>Code = 422, Reason = StatusReasonInvalid,
                 Details = Some \<lparr>Causes = [\<lparr>Message = ''field is immutable''\<rparr>,
                                           \<lparr>Message = ''Forbidden''\<rparr>]\<rparr>\<rparr> restartedSset)
     (desiredSset None) (Some (\<lambda>msg c. c @ [msg])) [] []
   = Inr (None, w, [''field is immutable, Forbidden''],
          [GetCall ''prometheus'', UpdateCall w,
           DeleteCall ''prometheus'' \<lparr>PropagationPolicy = Some DeletePropagationForeground\<rparr>])"
proof -
  let ?d = "\<lparr>Causes = [\<lparr>Message = ''field is immutable''\<rparr>, \<lparr>Message = ''Forbidden''\<rparr>]\<rparr>"
  let ?st = "\<lparr>Code = 422, Reason = StatusReasonInvalid, Details = Some ?d\<rparr>"
  from updateStatefulSet_rejecting [OF not_IsConflict_invalid, of "Some ?d" None] obtain w where
    u: "updateStatefulSet (rejecting ?st restartedSset) (desiredSset None) []
          = (Some (StatusError ?st), w, [GetCall ''prometheus'', UpdateCall w])"
    and n: "ObjectMeta.Name (ObjectMeta w) = ''prometheus''"
    by blast
  have "ForceUpdateStatefulSet (rejecting ?st restartedSset) (desiredSset None)
          (Some (\<lambda>msg c. c @ [msg])) [] []
        = Inr (None, w, [''field is immutable, Forbidden''],
          [GetCall ''prometheus'', UpdateCall w,
           DeleteCall ''prometheus'' \<lparr>PropagationPolicy = Some DeletePropagationForeground\<rparr>])"
    using ForceUpdateStatefulSet_invalid [OF u, of ?d "Some (\<lambda>msg c. c @ [msg])" "[]"]
    by (simp add: n rejecting_def outcome_def)
  then show ?thesis by blast
qed

section \<open>The RBAC check\<close>

lemma IsAllowed_scan_append:
  "IsAllowed_scan srv (xs @ ys) m log =
     (case IsAllowed_scan srv xs m log of
        (Inl err, log1) \<Rightarrow> (Inl err, log1)
      | (Inr m1, log1) \<Rightarrow> IsAllowed_scan srv ys m1 log1)"
  by (induction srv xs m log rule: IsAllowed_scan.induct)
     (auto split: prod.splits sum.splits)

lemma IsAllowed_verbs_scan:
  "IsAllowed_verbs srv ns ra verbs m log
     = IsAllowed_scan srv (map (\<lambda>verb. (ns, ra, verb)) verbs) m log"
  by (induction verbs arbitrary: m log) (auto split: prod.splits sum.splits)

lemma IsAllowed_attributes_scan:
  "IsAllowed_attributes srv ns attributes m log
     = IsAllowed_scan srv
         (concat (map (\<lambda>ra. map (\<lambda>verb. (ns, ra, verb)) (Verbs ra)) attributes)) m log"
  by (induction attributes arbitrary: m log)
     (auto simp: IsAllowed_verbs_scan IsAllowed_scan_append split: prod.splits sum.splits)

lemma IsAllowed_namespaces_scan:
  "IsAllowed_namespaces srv namespaces attributes m log
     = IsAllowed_scan srv (combinations namespaces attributes) m log"
  by (induction namespaces arbitrary: m log)
     (auto simp: combinations_def IsAllowed_attributes_scan IsAllowed_scan_append
        split: prod.splits sum.splits)

lemma length_answers: "length (answers srv log rs) = length rs"
  by (induction rs arbitrary: log) auto

lemma answers_nth:
  "i < length rs \<Longrightarrow> answers srv log rs ! i = srv (log @ take (Suc i) rs)"
proof (induction rs arbitrary: log i)
  case Nil
  then show ?case by simp
next
  case (Cons r rs)
  then show ?case by (cases i) auto
qed

lemma IsAllowed_scan_all_answered:
  assumes "\<forall>a \<in> set (answers srv log (reviews cs)). \<exists>b. a = Inr b"
  shows "IsAllowed_scan srv cs m log
           = (Inr (m @ denials cs (answers srv log (reviews cs))), log @ reviews cs)"
  using assms
proof (induction cs arbitrary: m log)
  case Nil
  then show ?case by (simp add: denials_def reviews_def)
next
  case (Cons c cs)
  obtain ns ra verb where c: "c = (ns, ra, verb)" by (cases c) auto
  from Cons.prems c obtain b where
    b: "srv (log @ [review ns ra verb]) = Inr b"
    and rest: "\<forall>a \<in> set (answers srv (log @ [review ns ra verb]) (reviews cs)). \<exists>b. a = Inr b"
    by (auto simp: reviews_def)
  from Cons.IH [OF rest] b c show ?case
    by (simp add: ssar_Create_def denials_def reviews_def)
qed

lemma IsAllowed_scan_failure:
  assumes "i < length cs" "answers srv log (reviews cs) ! i = Inl err"
    and "\<forall>j<i. \<exists>b. answers srv log (reviews cs) ! j = Inr b"
  shows "IsAllowed_scan srv cs m log = (Inl err, log @ take (Suc i) (reviews cs))"
  using assms
proof (induction cs arbitrary: m log i)
  case Nil
  then show ?case by simp
next
  case (Cons c cs)
  obtain ns ra verb where c: "c = (ns, ra, verb)" by (cases c) auto
  show ?case
  proof (cases i)
    case 0
    with Cons.prems c show ?thesis
      by (simp add: ssar_Create_def reviews_def)
  next
    case (Suc i')
    from Cons.prems(3) Suc have "\<exists>b. answers srv log (reviews (c # cs)) ! 0 = Inr b" by blast
    then obtain b where b: "srv (log @ [review ns ra verb]) = Inr b"
      using c by (auto simp: reviews_def)
    have 1: "i' < length cs" using Cons.prems(1) Suc by simp
    have 2: "answers srv (log @ [review ns ra verb]) (reviews cs) ! i' = Inl err"
      using Cons.prems(2) Suc c by (simp add: reviews_def)
    have 3: "\<forall>j<i'. \<exists>b. answers srv (log @ [review ns ra verb]) (reviews cs) ! j = Inr b"
    proof (intro allI impI)
      fix j assume "j < i'"
      then have "Suc j < i" using Suc by simp
      with Cons.prems(3) have "\<exists>b. answers srv log (reviews (c # cs)) ! Suc j = Inr b" by blast
      then show "\<exists>b. answers srv (log @ [review ns ra verb]) (reviews cs) ! j = Inr b"
        using c by (simp add: reviews_def)
    qed
    from Cons.IH [OF 1 2 3] b c Suc show ?thesis
      by (simp add: ssar_Create_def reviews_def)
  qed
qed

text \<open>
  Claim C7. Let the combinations be all triples of a namespace (the sentinel for all
  namespaces when none is given), an attribute and a verb of the attribute, in the order
  of the loops, and let the answers be those of the server to their reviews, sent one
  after another. \<^verbatim>\<open>IsAllowed\<close>
  \<^item> returns an error at once, with no review sent, when there is no attribute;
  \<^item> when the review of index \<open>i\<close> is the first that fails at the transport level, stops
    there (the log ends with that review) and returns \<^verbatim>\<open>false\<close>, no denial and that
    error;
  \<^item> when every review is answered, has sent the reviews of all combinations and returns
    the denials, one for each review answered with not allowed, in order, with
    \<^verbatim>\<open>true\<close> exactly when there is no denial, and no error.

  By \<open>answers_nth\<close> the answer of index \<open>i\<close> is what the server says to the log followed
  by the first \<open>i + 1\<close> reviews.
\<close>

theorem IsAllowed_result:
  assumes "nss = (if namespaces = [] then [NamespaceAll] else namespaces)"
    and "cs = combinations nss attributes"
    and "as = answers ssarClient log (reviews cs)"
  shows "(attributes = [] \<longrightarrow>
            IsAllowed ssarClient namespaces attributes log
              = ((False, [], Some (ErrorString ''resource attributes must not be empty'')), log))
    \<and> (attributes \<noteq> [] \<and> i < length cs \<and> as ! i = Inl err \<and> (\<forall>j<i. \<exists>b. as ! j = Inr b) \<longrightarrow>
            IsAllowed ssarClient namespaces attributes log
              = ((False, [], Some err), log @ take (Suc i) (reviews cs)))
    \<and> (attributes \<noteq> [] \<and> (\<forall>a \<in> set as. \<exists>b. a = Inr b) \<longrightarrow>
            IsAllowed ssarClient namespaces attributes log
              = ((denials cs as = [], denials cs as, None), log @ reviews cs))"
proof (intro conjI impI)
  assume "attributes = []"
  then show "IsAllowed ssarClient namespaces attributes log
              = ((False, [], Some (ErrorString ''resource attributes must not be empty'')), log)"
    by (simp add: IsAllowed_def)
next
  assume a: "attributes \<noteq> [] \<and> i < length cs \<and> as ! i = Inl err \<and> (\<forall>j<i. \<exists>b. as ! j = Inr b)"
  then have "IsAllowed_scan ssarClient cs [] log = (Inl err, log @ take (Suc i) (reviews cs))"
    unfolding assms(3) by (intro IsAllowed_scan_failure) auto
  with a show "IsAllowed ssarClient namespaces attributes log
              = ((False, [], Some err), log @ take (Suc i) (reviews cs))"
    by (simp add: IsAllowed_def Let_def IsAllowed_namespaces_scan assms(1,2))
next
  assume a: "attributes \<noteq> [] \<and> (\<forall>a \<in> set as. \<exists>b. a = Inr b)"
  then have "IsAllowed_scan ssarClient cs [] log = (Inr ([] @ denials cs as), log @ reviews cs)"
    unfolding assms(3) by (intro IsAllowed_scan_all_answered) auto
  with a show "IsAllowed ssarClient namespaces attributes log
              = ((denials cs as = [], denials cs as, None), log @ reviews cs)"
    by (simp add: IsAllowed_def Let_def IsAllowed_namespaces_scan assms(1,2))
qed

text \<open>
  Two verbs on pods in all namespaces: a server that denies \<^verbatim>\<open>list\<close>, a server that
  allows both, and a server that denies the first review and fails on the second.
\<close>

lemma Verb_review: "Verb (review ns ra verb) = verb"
  by (simp add: review_def Let_def)

theorem IsAllowed_result_witness:
  "IsAllowed (denyVerb ''list'') [] [] []
     = ((False, [], Some (ErrorString ''resource attributes must not be empty'')), [])
   \<and> IsAllowed (denyVerb ''list'') [] [podsAttribute] []
     = ((False, [MissingPermissionAll ''list'' ''pods'' ''''], None),
        [review '''' podsAttribute ''get'', review '''' podsAttribute ''list''])
   \<and> IsAllowed (denyVerb ''delete'') [] [podsAttribute] []
     = ((True, [], None),
        [review '''' podsAttribute ''get'', review '''' podsAttribute ''list''])
   \<and> IsAllowed (failAt 2 (ErrorString ''connection refused'')) [] [podsAttribute] []
     = ((False, [], Some (ErrorString ''connection refused'')),
        [review '''' podsAttribute ''get'', review '''' podsAttribute ''list''])"
proof -
  have c: "combinations [NamespaceAll] [podsAttribute]
             = [('''', podsAttribute, ''get''), ('''', podsAttribute, ''list'')]"
    by (simp add: combinations_def podsAttribute_def NamespaceAll_def)
  have r: "reviews [('''', podsAttribute, ''get''), ('''', podsAttribute, ''list'')]
             = [review '''' podsAttribute ''get'', review '''' podsAttribute ''list'']"
    by (simp add: reviews_def)
  have m: "missingPermission '''' podsAttribute ''list''
             = MissingPermissionAll ''list'' ''pods'' ''''"
    by (simp add: missingPermission_def podsAttribute_def NamespaceAll_def)
  have 1: "IsAllowed (denyVerb ''list'') [] [] []
     = ((False, [], Some (ErrorString ''resource attributes must not be empty'')), [])"
    using IsAllowed_result [OF refl refl refl, where namespaces = "[]" and attributes = "[]"
        and ssarClient = "denyVerb ''list''" and log = "[]", THEN conjunct1]
    by simp
  have 2: "IsAllowed (denyVerb ''list'') [] [podsAttribute] []
     = ((False, [MissingPermissionAll ''list'' ''pods'' ''''], None),
        [review '''' podsAttribute ''get'', review '''' podsAttribute ''list''])"
    using IsAllowed_result [OF refl refl refl, where namespaces = "[]"
        and attributes = "[podsAttribute]" and ssarClient = "denyVerb ''list''" and log = "[]",
        THEN conjunct2, THEN conjunct2]
    by (auto simp: c r m denials_def denyVerb_def Verb_review)
  have 3: "IsAllowed (denyVerb ''delete'') [] [podsAttribute] []
     = ((True, [], None),
        [review '''' podsAttribute ''get'', review '''' podsAttribute ''list''])"
    using IsAllowed_result [OF refl refl refl, where namespaces = "[]"
        and attributes = "[podsAttribute]" and ssarClient = "denyVerb ''delete''" and log = "[]",
        THEN conjunct2, THEN conjunct2]
    by (auto simp: c r denials_def denyVerb_def Verb_review)
  have 4: "IsAllowed (failAt 2 (ErrorString ''connection refused'')) [] [podsAttribute] []
     = ((False, [], Some (ErrorString ''connection refused'')),
        [review '''' podsAttribute ''get'', review '''' podsAttribute ''list''])"
    using IsAllowed_result [OF refl refl refl, where namespaces = "[]"
        and attributes = "[podsAttribute]"
        and ssarClient = "failAt 2 (ErrorString ''connection refused'')" and log = "[]"
        and i = 1 and err = "ErrorString ''connection refused''",
        THEN conjunct2, THEN conjunct1]
    by (auto simp: c r failAt_def)
  from 1 2 3 4 show ?thesis by simp
qed


end
